theory Spec2Isabelle
  imports Complex_Main "HOL-Library.Word"
begin

unbundle bit_operations_syntax

section \<open>Machine types\<close>

text \<open>
  The integer types of \<^verbatim>\<open>picoos.h\<close> are fixed-width words. A signed type is the same
  word read through \<open>sint\<close> and compared with \<open><s\<close>; an unsigned one is read through
  \<open>unat\<close> and compared with \<open><\<close>.
\<close>

type_synonym picoos_uint8 = "8 word"
type_synonym picoos_int8 = "8 word"
type_synonym picoos_uint16 = "16 word"
type_synonym picoos_int16 = "16 word"
type_synonym picoos_uint32 = "32 word"
type_synonym picoos_int32 = "32 word"

text \<open>
  Modelled from the spec: the status codes of \<^verbatim>\<open>picodefs.h\<close>, which is not among the
  sources. The spec calls them small integers with a single generic "other error"
  bucket; only their being distinct from \<open>PICO_OK\<close> and from each other is used.
\<close>

datatype pico_status = PICO_OK | PICO_ERR_NULLPTR_ACCESS | PICO_ERR_OTHER | PICO_EXC_OUT_OF_MEM

text \<open>
  \<^verbatim>\<open>picoos_single\<close> is the C \<^verbatim>\<open>float\<close>. The code under study only stores, copies and
  compares such values, so a value is a number, an infinity or a NaN: every finite
  single is a real number (\<open>Finite\<close> over-approximates them by all reals), and the
  ordered comparisons of C are false whenever an operand is a NaN. A decimal literal
  such as \<^verbatim>\<open>0.80f\<close> stands for the single nearest to it and is written as the decimal.
\<close>

datatype picoos_single = Finite real | PosInf | NegInf | NaN

fun single_less :: "picoos_single \<Rightarrow> picoos_single \<Rightarrow> bool" where
  "single_less (Finite a) (Finite b) = (a < b)"
| "single_less (Finite a) PosInf = True"
| "single_less NegInf (Finite b) = True"
| "single_less NegInf PosInf = True"
| "single_less _ _ = False"

section \<open>Fixed-point arithmetic (picofixedpoint.h)\<close>

type_synonym pico_q15_t = "16 word"

definition PICO_Q15_MIN :: pico_q15_t where
  "PICO_Q15_MIN = 0x8000"

definition PICO_Q15_MAX :: pico_q15_t where
  "PICO_Q15_MAX = 0x7FFF"

text \<open>
  \<^verbatim>\<open>int32_t result = (int32_t)a + (int32_t)b;\<close> followed by the two signed comparisons
  against the limits (promoted to 32 bits) and the narrowing cast.
\<close>

definition pico_q15_add_sat :: "pico_q15_t \<Rightarrow> pico_q15_t \<Rightarrow> pico_q15_t" where
  "pico_q15_add_sat a b =
     (let result = (scast a :: 32 word) + scast b in
      if (scast PICO_Q15_MAX :: 32 word) <s result then PICO_Q15_MAX
      else if result <s (scast PICO_Q15_MIN :: 32 word) then PICO_Q15_MIN
      else ucast result)"

section \<open>Decision tree cache (picodtcache.h, picodtcache.c)\<close>

text \<open>The desktop configuration; the embedded one has 128 slots.\<close>

definition PICO_DT_CACHE_SIZE :: nat where
  "PICO_DT_CACHE_SIZE = 256"

record picodt_cache_entry =
  context_hash :: picoos_uint32
  pdf_index :: picoos_uint16
  tree_id :: picoos_uint16
  valid :: picoos_uint8
  access_count :: picoos_uint8

record picodt_cache_stats =
  hits :: picoos_uint32
  misses :: picoos_uint32
  collisions :: picoos_uint32
  evictions :: picoos_uint32

record picodt_cache =
  entries :: "picodt_cache_entry list"
  stats :: picodt_cache_stats
  enabled :: picoos_uint8
  clock :: picoos_uint8

text \<open>
  A \<^verbatim>\<open>picodt_cache_t *\<close> is \<open>None\<close> when it is the null pointer and \<open>Some c\<close> when it
  points to the cache object \<open>c\<close>; the functions return the object as they leave it.
  The array \<open>entries\<close> has \<open>PICO_DT_CACHE_SIZE\<close> elements.
\<close>

definition cache_array_ok :: "picodt_cache \<Rightarrow> bool" where
  "cache_array_ok c = (length (entries c) = PICO_DT_CACHE_SIZE)"

definition get_cache_index :: "picoos_uint32 \<Rightarrow> picoos_uint16" where
  "get_cache_index hash = ucast (hash AND (of_nat PICO_DT_CACHE_SIZE - 1))"

text \<open>The slot \<^verbatim>\<open>(start_index + i) & (PICO_DT_CACHE_SIZE - 1)\<close> as an array index.\<close>

definition probe_index :: "picoos_uint16 \<Rightarrow> picoos_uint16 \<Rightarrow> picoos_uint16" where
  "probe_index start_index i = (start_index + i) AND (of_nat PICO_DT_CACHE_SIZE - 1)"

function find_lru_loop ::
  "picodt_cache \<Rightarrow> picoos_uint16 \<Rightarrow> picoos_uint16 \<Rightarrow> picoos_uint16 \<Rightarrow> picoos_uint8 \<Rightarrow> picoos_uint16"
where
  "find_lru_loop cache start_index i lru_index min_access =
     (if i < 4 then
        (let idx = probe_index start_index i in
         if valid (entries cache ! unat idx) = 0 then idx
         else if access_count (entries cache ! unat idx) < min_access
           then find_lru_loop cache start_index (i + 1) idx (access_count (entries cache ! unat idx))
           else find_lru_loop cache start_index (i + 1) lru_index min_access)
      else lru_index)"
  by pat_completeness auto
termination
  by (relation "measure (\<lambda>(cache, start_index, i, lru_index, min_access). 4 - unat i)")
     (auto simp: word_less_nat_alt unat_word_ariths)

definition find_lru_entry :: "picodt_cache \<Rightarrow> picoos_uint16 \<Rightarrow> picoos_uint16" where
  "find_lru_entry cache start_index = find_lru_loop cache start_index 0 start_index 255"

text \<open>The loop shared by \<^verbatim>\<open>picodt_cache_initialize\<close> and \<^verbatim>\<open>picodt_cache_clear\<close>.\<close>

function invalidate_entries :: "picodt_cache_entry list \<Rightarrow> nat \<Rightarrow> picodt_cache_entry list" where
  "invalidate_entries es i =
     (if i < PICO_DT_CACHE_SIZE
      then invalidate_entries (es[i := (es ! i)\<lparr>valid := 0, access_count := 0\<rparr>]) (i + 1)
      else es)"
  by pat_completeness auto
termination
  by (relation "measure (\<lambda>(es, i). PICO_DT_CACHE_SIZE - i)") auto

definition zero_stats :: picodt_cache_stats where
  "zero_stats = \<lparr>hits = 0, misses = 0, collisions = 0, evictions = 0\<rparr>"

text \<open>
  \<open>cache_is_null\<close> says that the out-pointer \<^verbatim>\<open>cache\<close> is null; \<open>allocated\<close> is what
  \<^verbatim>\<open>picoos_allocate\<close> returns: \<open>None\<close> for no memory, else the fresh object with
  whatever contents the memory had.
\<close>

definition picodt_cache_initialize ::
  "bool \<Rightarrow> picodt_cache option \<Rightarrow> pico_status \<times> picodt_cache option"
where
  "picodt_cache_initialize cache_is_null allocated =
     (if cache_is_null then (PICO_ERR_NULLPTR_ACCESS, None)
      else case allocated of
        None \<Rightarrow> (PICO_EXC_OUT_OF_MEM, None)
      | Some new_cache \<Rightarrow>
          (PICO_OK,
           Some (new_cache\<lparr>entries := invalidate_entries (entries new_cache) 0,
                           stats := zero_stats, enabled := 1, clock := 0\<rparr>)))"

definition picodt_cache_clear :: "picodt_cache option \<Rightarrow> picodt_cache option" where
  "picodt_cache_clear cache =
     (case cache of
        None \<Rightarrow> None
      | Some c \<Rightarrow>
          Some (c\<lparr>entries := invalidate_entries (entries c) 0, stats := zero_stats, clock := 0\<rparr>))"

definition picodt_cache_is_enabled :: "picodt_cache option \<Rightarrow> bool" where
  "picodt_cache_is_enabled cache = (case cache of None \<Rightarrow> False | Some c \<Rightarrow> enabled c \<noteq> 0)"

definition picodt_cache_set_enabled :: "picodt_cache option \<Rightarrow> picoos_uint8 \<Rightarrow> picodt_cache option" where
  "picodt_cache_set_enabled cache en =
     (case cache of None \<Rightarrow> None | Some c \<Rightarrow> Some (c\<lparr>enabled := en\<rparr>))"

text \<open>The test both probes of the lookup make on a slot.\<close>

definition entry_matches :: "picodt_cache_entry \<Rightarrow> picoos_uint32 \<Rightarrow> picoos_uint16 \<Rightarrow> bool" where
  "entry_matches e hash tid = (valid e \<noteq> 0 \<and> context_hash e = hash \<and> tree_id e = tid)"

text \<open>\<^verbatim>\<open>cache->entries[idx].access_count = cache->clock++;\<close>\<close>

definition touch_entry :: "picodt_cache \<Rightarrow> picoos_uint16 \<Rightarrow> picodt_cache" where
  "touch_entry c idx =
     c\<lparr>entries := (entries c)[unat idx := (entries c ! unat idx)\<lparr>access_count := clock c\<rparr>],
       clock := clock c + 1\<rparr>"

text \<open>
  The collision loop of the lookup, \<open>i\<close> from 1 to 3: \<open>Some\<close> of the value found and
  the cache as updated by the hit, or \<open>None\<close> when the loop runs out.
\<close>

function lookup_probe ::
  "picodt_cache \<Rightarrow> picoos_uint16 \<Rightarrow> picoos_uint32 \<Rightarrow> picoos_uint16 \<Rightarrow> picoos_uint16
     \<Rightarrow> (picoos_uint16 \<times> picodt_cache) option"
where
  "lookup_probe c index hash tid i =
     (if i < 4 then
        (let idx = probe_index index i in
         if entry_matches (entries c ! unat idx) hash tid
         then Some (pdf_index (entries c ! unat idx),
                    (touch_entry c idx)\<lparr>stats := (stats c)\<lparr>hits := hits (stats c) + 1,
                                                           collisions := collisions (stats c) + 1\<rparr>\<rparr>)
         else lookup_probe c index hash tid (i + 1))
      else None)"
  by pat_completeness auto
termination
  by (relation "measure (\<lambda>(c, index, hash, tid, i). 4 - unat i)")
     (auto simp: word_less_nat_alt unat_word_ariths)

text \<open>
  The out-parameter \<^verbatim>\<open>pdf_index\<close> is \<open>None\<close> for a null pointer and \<open>Some v\<close> for a
  cell holding \<open>v\<close>; the result gives the return value, the cell and the cache after
  the call.
\<close>

definition picodt_cache_lookup ::
  "picodt_cache option \<Rightarrow> picoos_uint32 \<Rightarrow> picoos_uint16 \<Rightarrow> picoos_uint16 option
     \<Rightarrow> picoos_uint8 \<times> picoos_uint16 option \<times> picodt_cache option"
where
  "picodt_cache_lookup cache hash tid pdf_out =
     (if \<not> picodt_cache_is_enabled cache \<or> pdf_out = None then (0, pdf_out, cache)
      else case cache of
        None \<Rightarrow> (0, pdf_out, cache)
      | Some c \<Rightarrow>
          (let index = get_cache_index hash in
           if entry_matches (entries c ! unat index) hash tid
           then (1, Some (pdf_index (entries c ! unat index)),
                 Some ((touch_entry c index)\<lparr>stats := (stats c)\<lparr>hits := hits (stats c) + 1\<rparr>\<rparr>))
           else case lookup_probe c index hash tid 1 of
             Some (v, c') \<Rightarrow> (1, Some v, Some c')
           | None \<Rightarrow> (0, pdf_out, Some (c\<lparr>stats := (stats c)\<lparr>misses := misses (stats c) + 1\<rparr>\<rparr>))))"

text \<open>The five assignments that fill a slot, in both branches of the insert.\<close>

definition store_entry ::
  "picodt_cache \<Rightarrow> picoos_uint16 \<Rightarrow> picoos_uint32 \<Rightarrow> picoos_uint16 \<Rightarrow> picoos_uint16 \<Rightarrow> picodt_cache"
where
  "store_entry c index hash tid pdf =
     c\<lparr>entries := (entries c)[unat index :=
          (entries c ! unat index)\<lparr>context_hash := hash, pdf_index := pdf, tree_id := tid,
                                    valid := 1, access_count := clock c\<rparr>],
       clock := clock c + 1\<rparr>"

definition picodt_cache_insert ::
  "picodt_cache option \<Rightarrow> picoos_uint32 \<Rightarrow> picoos_uint16 \<Rightarrow> picoos_uint16 \<Rightarrow> picodt_cache option"
where
  "picodt_cache_insert cache hash tid pdf =
     (if \<not> picodt_cache_is_enabled cache then cache
      else case cache of
        None \<Rightarrow> cache
      | Some c \<Rightarrow>
          (let index = get_cache_index hash in
           if valid (entries c ! unat index) = 0
           then Some (store_entry c index hash tid pdf)
           else
             (let index' = find_lru_entry c index;
                  c' = (if valid (entries c ! unat index') \<noteq> 0
                        then c\<lparr>stats := (stats c)\<lparr>evictions := evictions (stats c) + 1\<rparr>\<rparr>
                        else c)
              in Some (store_entry c' index' hash tid pdf))))"

definition picodt_cache_hit_rate :: "picodt_cache option \<Rightarrow> picoos_uint8" where
  "picodt_cache_hit_rate cache =
     (case cache of
        None \<Rightarrow> 0
      | Some c \<Rightarrow>
          (let total = hits (stats c) + misses (stats c) in
           if total = 0 then 0
           else ucast ((hits (stats c) * 100) div total)))"

text \<open>
  Histories of a cache: the three operations a client performs on one cache object.
  A lookup is given a non-null cell for its result.
\<close>

datatype cache_op =
  Lookup picoos_uint32 picoos_uint16
| Insert picoos_uint32 picoos_uint16 picoos_uint16
| Clear

fun apply_cache_op :: "picodt_cache option \<Rightarrow> cache_op \<Rightarrow> picodt_cache option" where
  "apply_cache_op cache (Lookup hash tid) = snd (snd (picodt_cache_lookup cache hash tid (Some 0)))"
| "apply_cache_op cache (Insert hash tid pdf) = picodt_cache_insert cache hash tid pdf"
| "apply_cache_op cache Clear = picodt_cache_clear cache"

fun run_cache_ops :: "picodt_cache option \<Rightarrow> cache_op list \<Rightarrow> picodt_cache option" where
  "run_cache_ops cache [] = cache"
| "run_cache_ops cache (op # ops) = run_cache_ops (apply_cache_op cache op) ops"

text \<open>
  The offsets \<open>i\<close> of the probe window of \<open>hash\<close> whose slot holds a valid entry for
  \<open>(hash, tid)\<close>: the entries a lookup of that key can reach.
\<close>

definition window_matches :: "picodt_cache \<Rightarrow> picoos_uint32 \<Rightarrow> picoos_uint16 \<Rightarrow> picoos_uint16 list" where
  "window_matches c hash tid =
     filter (\<lambda>i. entry_matches (entries c ! unat (probe_index (get_cache_index hash) i)) hash tid)
       [0, 1, 2, 3]"

definition at_most_one_live :: "picodt_cache option \<Rightarrow> picoos_uint32 \<Rightarrow> picoos_uint16 \<Rightarrow> bool" where
  "at_most_one_live cache hash tid =
     (case cache of None \<Rightarrow> True | Some c \<Rightarrow> length (window_matches c hash tid) \<le> 1)"

text \<open>
  The discipline of the data flow (query the cache, and insert on a miss): every
  insert in the history is made in a state where a lookup of its key misses.
\<close>

fun inserts_follow_misses :: "picodt_cache option \<Rightarrow> cache_op list \<Rightarrow> bool" where
  "inserts_follow_misses cache [] = True"
| "inserts_follow_misses cache (Insert hash tid pdf # ops) =
     (fst (picodt_cache_lookup cache hash tid (Some 0)) = 0 \<and>
      inserts_follow_misses (apply_cache_op cache (Insert hash tid pdf)) ops)"
| "inserts_follow_misses cache (op # ops) = inserts_follow_misses (apply_cache_op cache op) ops"

text \<open>
  A concrete cache for examples: memory that holds zeros, and the cache that
  \<^verbatim>\<open>picodt_cache_initialize\<close> makes of it.
\<close>

definition zero_entry :: picodt_cache_entry where
  "zero_entry = \<lparr>context_hash = 0, pdf_index = 0, tree_id = 0, valid = 0, access_count = 0\<rparr>"

definition blank_memory :: picodt_cache where
  "blank_memory = \<lparr>entries = replicate PICO_DT_CACHE_SIZE zero_entry, stats = zero_stats,
                    enabled = 0, clock = 0\<rparr>"

definition fresh_cache :: "picodt_cache option" where
  "fresh_cache = snd (picodt_cache_initialize False (Some blank_memory))"

text \<open>
  The invariant of the histories: the array has its size, and no key has two live
  entries in its probe window.
\<close>

definition cache_inv :: "picodt_cache option \<Rightarrow> bool" where
  "cache_inv cache =
     (case cache of None \<Rightarrow> True
      | Some c \<Rightarrow> cache_array_ok c \<and> (\<forall>h t. length (window_matches c h t) \<le> 1))"

declare find_lru_loop.simps [simp del]
declare lookup_probe.simps [simp del]
declare invalidate_entries.simps [simp del]

text \<open>The hit rate as the documentation gives it, on unbounded numbers.\<close>

definition hit_rate_spec :: "nat \<Rightarrow> nat \<Rightarrow> nat" where
  "hit_rate_spec h m = (if h + m = 0 then 0 else (h * 100) div (h + m))"

section \<open>Quality enhancement (picoqualityenhance.h, picoqualityenhance.c)\<close>

text \<open>The build with \<^verbatim>\<open>PICO_USE_QUALITY_ENHANCE\<close> set, whose functions are not stubs.\<close>

definition PICO_QUALITY_MODE_SPEED :: picoos_int8 where "PICO_QUALITY_MODE_SPEED = 0"
definition PICO_QUALITY_MODE_BALANCED :: picoos_int8 where "PICO_QUALITY_MODE_BALANCED = 1"
definition PICO_QUALITY_MODE_QUALITY :: picoos_int8 where "PICO_QUALITY_MODE_QUALITY = 2"
definition PICO_DEFAULT_QUALITY_MODE :: picoos_int8 where
  "PICO_DEFAULT_QUALITY_MODE = PICO_QUALITY_MODE_BALANCED"

definition PICO_NOISE_FILTER_ORDER :: nat where "PICO_NOISE_FILTER_ORDER = 8"

definition PICO_PITCH_SCALE_MIN :: picoos_single where "PICO_PITCH_SCALE_MIN = Finite 0.5"
definition PICO_PITCH_SCALE_MAX :: picoos_single where "PICO_PITCH_SCALE_MAX = Finite 2.0"
definition PICO_SPEED_SCALE_MIN :: picoos_single where "PICO_SPEED_SCALE_MIN = Finite 0.5"
definition PICO_SPEED_SCALE_MAX :: picoos_single where "PICO_SPEED_SCALE_MAX = Finite 3.0"
definition PICO_FORMANT_SHIFT_MIN :: picoos_single where "PICO_FORMANT_SHIFT_MIN = Finite (- 500.0)"
definition PICO_FORMANT_SHIFT_MAX :: picoos_single where "PICO_FORMANT_SHIFT_MAX = Finite 500.0"

definition PICO_DEFAULT_PITCH_SCALE :: picoos_single where "PICO_DEFAULT_PITCH_SCALE = Finite 1.0"
definition PICO_DEFAULT_SPEED_SCALE :: picoos_single where "PICO_DEFAULT_SPEED_SCALE = Finite 1.0"
definition PICO_DEFAULT_FORMANT_SHIFT :: picoos_single where "PICO_DEFAULT_FORMANT_SHIFT = Finite 0.0"
definition PICO_DEFAULT_EMPHASIS_SCALE :: picoos_single where "PICO_DEFAULT_EMPHASIS_SCALE = Finite 1.0"
definition PICO_DEFAULT_PAUSE_SCALE :: picoos_single where "PICO_DEFAULT_PAUSE_SCALE = Finite 1.0"
definition PICO_DEFAULT_QUESTION_BOOST :: picoos_int8 where "PICO_DEFAULT_QUESTION_BOOST = 50"

definition PICO_MALE_PITCH_SCALE :: picoos_single where "PICO_MALE_PITCH_SCALE = Finite 0.80"
definition PICO_MALE_FORMANT_SHIFT :: picoos_single where "PICO_MALE_FORMANT_SHIFT = Finite (- 120.0)"
definition PICO_FEMALE_PITCH_SCALE :: picoos_single where "PICO_FEMALE_PITCH_SCALE = Finite 1.25"
definition PICO_FEMALE_FORMANT_SHIFT :: picoos_single where "PICO_FEMALE_FORMANT_SHIFT = Finite 150.0"
definition PICO_CHILD_PITCH_SCALE :: picoos_single where "PICO_CHILD_PITCH_SCALE = Finite 1.50"
definition PICO_CHILD_SPEED_SCALE :: picoos_single where "PICO_CHILD_SPEED_SCALE = Finite 1.10"
definition PICO_ROBOT_PITCH_SCALE :: picoos_single where "PICO_ROBOT_PITCH_SCALE = Finite 0.90"
definition PICO_ROBOT_EMPHASIS_SCALE :: picoos_single where "PICO_ROBOT_EMPHASIS_SCALE = Finite 0.50"
definition PICO_SLOW_SPEED_SCALE :: picoos_single where "PICO_SLOW_SPEED_SCALE = Finite 0.75"
definition PICO_SLOW_PAUSE_SCALE :: picoos_single where "PICO_SLOW_PAUSE_SCALE = Finite 1.30"
definition PICO_FAST_SPEED_SCALE :: picoos_single where "PICO_FAST_SPEED_SCALE = Finite 1.40"
definition PICO_FAST_PAUSE_SCALE :: picoos_single where "PICO_FAST_PAUSE_SCALE = Finite 0.80"

record pico_voice_params =
  pitch_scale :: picoos_single
  speed_scale :: picoos_single
  formant_shift :: picoos_single
  quality_mode :: picoos_int8

record pico_prosody_params =
  emphasis_scale :: picoos_single
  pause_scale :: picoos_single
  question_boost :: picoos_int8

record pico_noise_filter =
  state :: "picoos_int16 list"
  coeffs :: "picoos_int16 list"
  order :: picoos_int8

record pico_quality_context =
  voice_params :: pico_voice_params
  prosody_params :: pico_prosody_params
  noise_filter :: pico_noise_filter
  random_seed :: picoos_uint32
  initialized :: picoos_int8

record pico_quality_stats =
  noise_samples_generated :: picoos_uint32
  filter_updates :: picoos_uint32
  pitch_adjustments :: picoos_uint32
  formant_shifts :: picoos_uint32

text \<open>The two file-level objects of picoqualityenhance.c, passed through every call.\<close>

record quality_globals =
  g_quality_ctx :: pico_quality_context
  g_quality_stats :: pico_quality_stats

text \<open>
  The values of the enumeration \<^verbatim>\<open>pico_voice_profile_t\<close>. A C enumeration is an
  integer type, and a caller can pass a value that names no enumerator.
\<close>

type_synonym pico_voice_profile_t = int

definition PICO_VOICE_PROFILE_DEFAULT :: pico_voice_profile_t where "PICO_VOICE_PROFILE_DEFAULT = 0"
definition PICO_VOICE_PROFILE_MALE :: pico_voice_profile_t where "PICO_VOICE_PROFILE_MALE = 1"
definition PICO_VOICE_PROFILE_FEMALE :: pico_voice_profile_t where "PICO_VOICE_PROFILE_FEMALE = 2"
definition PICO_VOICE_PROFILE_CHILD :: pico_voice_profile_t where "PICO_VOICE_PROFILE_CHILD = 3"
definition PICO_VOICE_PROFILE_ROBOT :: pico_voice_profile_t where "PICO_VOICE_PROFILE_ROBOT = 4"
definition PICO_VOICE_PROFILE_SLOW :: pico_voice_profile_t where "PICO_VOICE_PROFILE_SLOW = 5"
definition PICO_VOICE_PROFILE_FAST :: pico_voice_profile_t where "PICO_VOICE_PROFILE_FAST = 6"

text \<open>The static initialisers: \<^verbatim>\<open>{ .initialized = 0 }\<close> and \<^verbatim>\<open>{0}\<close> zero every field.\<close>

definition static_quality_globals :: quality_globals where
  "static_quality_globals =
     \<lparr>g_quality_ctx =
        \<lparr>voice_params = \<lparr>pitch_scale = Finite 0, speed_scale = Finite 0,
                          formant_shift = Finite 0, quality_mode = 0\<rparr>,
         prosody_params = \<lparr>emphasis_scale = Finite 0, pause_scale = Finite 0, question_boost = 0\<rparr>,
         noise_filter = \<lparr>state = replicate PICO_NOISE_FILTER_ORDER 0,
                          coeffs = replicate PICO_NOISE_FILTER_ORDER 0, order = 0\<rparr>,
         random_seed = 0, initialized = 0\<rparr>,
      g_quality_stats = \<lparr>noise_samples_generated = 0, filter_updates = 0,
                         pitch_adjustments = 0, formant_shifts = 0\<rparr>\<rparr>"

definition pico_reset_quality_stats :: "quality_globals \<Rightarrow> pico_status \<times> quality_globals" where
  "pico_reset_quality_stats g =
     (PICO_OK, g\<lparr>g_quality_stats := \<lparr>noise_samples_generated = 0, filter_updates = 0,
                                      pitch_adjustments = 0, formant_shifts = 0\<rparr>\<rparr>)"

text \<open>The loop over the filter zeroes all \<open>PICO_NOISE_FILTER_ORDER\<close> cells of both arrays.\<close>

definition pico_quality_init :: "quality_globals \<Rightarrow> pico_status \<times> quality_globals" where
  "pico_quality_init g =
     (if initialized (g_quality_ctx g) \<noteq> 0 then (PICO_OK, g)
      else
        (let ctx = (g_quality_ctx g)
               \<lparr>voice_params := \<lparr>pitch_scale = PICO_DEFAULT_PITCH_SCALE,
                                  speed_scale = PICO_DEFAULT_SPEED_SCALE,
                                  formant_shift = PICO_DEFAULT_FORMANT_SHIFT,
                                  quality_mode = PICO_DEFAULT_QUALITY_MODE\<rparr>,
                prosody_params := \<lparr>emphasis_scale = PICO_DEFAULT_EMPHASIS_SCALE,
                                    pause_scale = PICO_DEFAULT_PAUSE_SCALE,
                                    question_boost = PICO_DEFAULT_QUESTION_BOOST\<rparr>,
                noise_filter := \<lparr>state = replicate PICO_NOISE_FILTER_ORDER 0,
                                  coeffs = replicate PICO_NOISE_FILTER_ORDER 0,
                                  order = of_nat PICO_NOISE_FILTER_ORDER\<rparr>,
                random_seed := 12345\<rparr>;
             g' = snd (pico_reset_quality_stats (g\<lparr>g_quality_ctx := ctx\<rparr>))
         in (PICO_OK, g'\<lparr>g_quality_ctx := (g_quality_ctx g')\<lparr>initialized := 1\<rparr>\<rparr>)))"

definition pico_quality_cleanup :: "quality_globals \<Rightarrow> pico_status \<times> quality_globals" where
  "pico_quality_cleanup g =
     (if initialized (g_quality_ctx g) = 0 then (PICO_OK, g)
      else (PICO_OK, g\<lparr>g_quality_ctx := (g_quality_ctx g)\<lparr>initialized := 0\<rparr>\<rparr>))"

definition pico_set_quality_mode :: "picoos_int8 \<Rightarrow> quality_globals \<Rightarrow> pico_status \<times> quality_globals" where
  "pico_set_quality_mode mode g =
     (if mode <s PICO_QUALITY_MODE_SPEED \<or> PICO_QUALITY_MODE_QUALITY <s mode
      then (PICO_ERR_OTHER, g)
      else (PICO_OK,
            g\<lparr>g_quality_ctx := (g_quality_ctx g)
                 \<lparr>voice_params := (voice_params (g_quality_ctx g))\<lparr>quality_mode := mode\<rparr>\<rparr>\<rparr>))"

definition pico_get_quality_mode :: "quality_globals \<Rightarrow> picoos_int8" where
  "pico_get_quality_mode g = quality_mode (voice_params (g_quality_ctx g))"

text \<open>A parameter pointer is \<open>None\<close> when null, else \<open>Some\<close> of the structure it points to.\<close>

definition pico_validate_voice_params :: "pico_voice_params option \<Rightarrow> pico_status" where
  "pico_validate_voice_params params =
     (case params of
        None \<Rightarrow> PICO_ERR_NULLPTR_ACCESS
      | Some p \<Rightarrow>
          if single_less (pitch_scale p) PICO_PITCH_SCALE_MIN \<or>
             single_less PICO_PITCH_SCALE_MAX (pitch_scale p) then PICO_ERR_OTHER
          else if single_less (speed_scale p) PICO_SPEED_SCALE_MIN \<or>
                  single_less PICO_SPEED_SCALE_MAX (speed_scale p) then PICO_ERR_OTHER
          else if single_less (formant_shift p) PICO_FORMANT_SHIFT_MIN \<or>
                  single_less PICO_FORMANT_SHIFT_MAX (formant_shift p) then PICO_ERR_OTHER
          else if quality_mode p <s PICO_QUALITY_MODE_SPEED \<or>
                  PICO_QUALITY_MODE_QUALITY <s quality_mode p then PICO_ERR_OTHER
          else PICO_OK)"

definition pico_set_voice_params ::
  "pico_voice_params option \<Rightarrow> quality_globals \<Rightarrow> pico_status \<times> quality_globals"
where
  "pico_set_voice_params params g =
     (case params of
        None \<Rightarrow> (PICO_ERR_NULLPTR_ACCESS, g)
      | Some p \<Rightarrow>
          (let result = pico_validate_voice_params params in
           if result \<noteq> PICO_OK then (result, g)
           else (PICO_OK, g\<lparr>g_quality_ctx := (g_quality_ctx g)\<lparr>voice_params := p\<rparr>\<rparr>)))"

definition pico_get_voice_params :: "quality_globals \<Rightarrow> pico_voice_params" where
  "pico_get_voice_params g = voice_params (g_quality_ctx g)"

definition pico_clamp_float :: "picoos_single \<Rightarrow> picoos_single \<Rightarrow> picoos_single \<Rightarrow> picoos_single" where
  "pico_clamp_float v mn mx =
     (if single_less v mn then mn else if single_less mx v then mx else v)"

text \<open>
  The function writes through the pointer it is given: the result gives the status,
  the caller's structure after the call and the globals.
\<close>

definition pico_set_prosody_params ::
  "pico_prosody_params option \<Rightarrow> quality_globals
     \<Rightarrow> pico_status \<times> pico_prosody_params option \<times> quality_globals"
where
  "pico_set_prosody_params params g =
     (case params of
        None \<Rightarrow> (PICO_ERR_NULLPTR_ACCESS, None, g)
      | Some p \<Rightarrow>
          (let p1 = p\<lparr>emphasis_scale := pico_clamp_float (emphasis_scale p) (Finite 0.5) (Finite 2.0)\<rparr>;
               p2 = p1\<lparr>pause_scale := pico_clamp_float (pause_scale p1) (Finite 0.5) (Finite 2.0)\<rparr>;
               p3 = (if question_boost p2 <s 0 then p2\<lparr>question_boost := 0\<rparr> else p2);
               p4 = (if 100 <s question_boost p3 then p3\<lparr>question_boost := 100\<rparr> else p3)
           in (PICO_OK, Some p4, g\<lparr>g_quality_ctx := (g_quality_ctx g)\<lparr>prosody_params := p4\<rparr>\<rparr>)))"

definition pico_get_prosody_params :: "quality_globals \<Rightarrow> pico_prosody_params" where
  "pico_get_prosody_params g = prosody_params (g_quality_ctx g)"

text \<open>The switch of \<^verbatim>\<open>pico_apply_voice_profile\<close> on the two local copies.\<close>

definition profile_settings ::
  "pico_voice_profile_t \<Rightarrow> pico_voice_params \<times> pico_prosody_params
     \<Rightarrow> pico_voice_params \<times> pico_prosody_params"
where
  "profile_settings profile pp =
     (let params = fst pp; prosody = snd pp in
      if profile = PICO_VOICE_PROFILE_MALE then
        (params\<lparr>pitch_scale := PICO_MALE_PITCH_SCALE, formant_shift := PICO_MALE_FORMANT_SHIFT\<rparr>,
         prosody)
      else if profile = PICO_VOICE_PROFILE_FEMALE then
        (params\<lparr>pitch_scale := PICO_FEMALE_PITCH_SCALE, formant_shift := PICO_FEMALE_FORMANT_SHIFT\<rparr>,
         prosody)
      else if profile = PICO_VOICE_PROFILE_CHILD then
        (params\<lparr>pitch_scale := PICO_CHILD_PITCH_SCALE, speed_scale := PICO_CHILD_SPEED_SCALE\<rparr>,
         prosody)
      else if profile = PICO_VOICE_PROFILE_ROBOT then
        (params\<lparr>pitch_scale := PICO_ROBOT_PITCH_SCALE\<rparr>,
         prosody\<lparr>emphasis_scale := PICO_ROBOT_EMPHASIS_SCALE\<rparr>)
      else if profile = PICO_VOICE_PROFILE_SLOW then
        (params\<lparr>speed_scale := PICO_SLOW_SPEED_SCALE\<rparr>,
         prosody\<lparr>pause_scale := PICO_SLOW_PAUSE_SCALE\<rparr>)
      else if profile = PICO_VOICE_PROFILE_FAST then
        (params\<lparr>speed_scale := PICO_FAST_SPEED_SCALE\<rparr>,
         prosody\<lparr>pause_scale := PICO_FAST_PAUSE_SCALE\<rparr>)
      else (params, prosody))"

definition pico_apply_voice_profile ::
  "pico_voice_profile_t \<Rightarrow> quality_globals \<Rightarrow> pico_status \<times> quality_globals"
where
  "pico_apply_voice_profile profile g =
     (let params = (voice_params (g_quality_ctx g))
            \<lparr>pitch_scale := PICO_DEFAULT_PITCH_SCALE,
             speed_scale := PICO_DEFAULT_SPEED_SCALE,
             formant_shift := PICO_DEFAULT_FORMANT_SHIFT\<rparr>;
          prosody = (prosody_params (g_quality_ctx g))
            \<lparr>emphasis_scale := PICO_DEFAULT_EMPHASIS_SCALE,
             pause_scale := PICO_DEFAULT_PAUSE_SCALE\<rparr>;
          (params', prosody') = profile_settings profile (params, prosody);
          g1 = snd (pico_set_voice_params (Some params') g);
          g2 = snd (snd (pico_set_prosody_params (Some prosody') g1))
      in (PICO_OK, g2))"

text \<open>
  \<^verbatim>\<open>*seed = (*seed * 1664525U + 1013904223U);\<close> then
  \<^verbatim>\<open>return (picoos_int16)((*seed >> 16) & 0xFFFF) - 16384;\<close>: the cast gives a signed
  16-bit value, the subtraction is done on \<^verbatim>\<open>int\<close>, and the return narrows the
  difference to 16 bits again. The result is the sample and the new seed.
\<close>

definition pico_generate_white_noise :: "picoos_uint32 \<Rightarrow> picoos_int16 \<times> picoos_uint32" where
  "pico_generate_white_noise seed =
     (let seed' = seed * 1664525 + 1013904223;
          hi = (ucast (drop_bit 16 seed' AND 0xFFFF) :: picoos_int16)
      in (word_of_int (sint hi - 16384), seed'))"

text \<open>\<open>n\<close> successive calls on one seed cell: the samples in order, and the last seed.\<close>

fun white_noise_run :: "nat \<Rightarrow> picoos_uint32 \<Rightarrow> picoos_int16 list \<times> picoos_uint32" where
  "white_noise_run 0 seed = ([], seed)"
| "white_noise_run (Suc n) seed =
     (let (s, seed') = pico_generate_white_noise seed;
          (ss, seed'') = white_noise_run n seed'
      in (s # ss, seed''))"

text \<open>
  The documented bounds of the two parameter sets, as sets of numbers: a field is in
  bound when it is a number of the interval.
\<close>

definition single_in_range :: "picoos_single \<Rightarrow> real \<Rightarrow> real \<Rightarrow> bool" where
  "single_in_range v lo hi = (case v of Finite r \<Rightarrow> lo \<le> r \<and> r \<le> hi | _ \<Rightarrow> False)"

definition quality_mode_ok :: "picoos_int8 \<Rightarrow> bool" where
  "quality_mode_ok m =
     (m = PICO_QUALITY_MODE_SPEED \<or> m = PICO_QUALITY_MODE_BALANCED \<or> m = PICO_QUALITY_MODE_QUALITY)"

definition voice_params_in_bounds :: "pico_voice_params \<Rightarrow> bool" where
  "voice_params_in_bounds p =
     (single_in_range (pitch_scale p) 0.5 2.0 \<and> single_in_range (speed_scale p) 0.5 3.0 \<and>
      single_in_range (formant_shift p) (- 500) 500 \<and> quality_mode_ok (quality_mode p))"

definition prosody_params_in_bounds :: "pico_prosody_params \<Rightarrow> bool" where
  "prosody_params_in_bounds p =
     (single_in_range (emphasis_scale p) 0.5 2.0 \<and> single_in_range (pause_scale p) 0.5 2.0 \<and>
      0 \<le> sint (question_boost p) \<and> sint (question_boost p) \<le> 100)"

text \<open>
  The parameter sets the specification gives for a profile: the documented defaults
  with the overrides of the profile laid over them.
\<close>

definition default_voice_params :: pico_voice_params where
  "default_voice_params =
     \<lparr>pitch_scale = Finite 1.0, speed_scale = Finite 1.0, formant_shift = Finite 0.0,
      quality_mode = PICO_QUALITY_MODE_BALANCED\<rparr>"

definition default_prosody_params :: pico_prosody_params where
  "default_prosody_params =
     \<lparr>emphasis_scale = Finite 1.0, pause_scale = Finite 1.0, question_boost = 50\<rparr>"

definition spec_profile_voice :: "pico_voice_profile_t \<Rightarrow> pico_voice_params" where
  "spec_profile_voice profile =
     (if profile = PICO_VOICE_PROFILE_MALE
        then default_voice_params\<lparr>pitch_scale := Finite 0.80, formant_shift := Finite (- 120)\<rparr>
      else if profile = PICO_VOICE_PROFILE_FEMALE
        then default_voice_params\<lparr>pitch_scale := Finite 1.25, formant_shift := Finite 150\<rparr>
      else if profile = PICO_VOICE_PROFILE_CHILD
        then default_voice_params\<lparr>pitch_scale := Finite 1.50, speed_scale := Finite 1.10\<rparr>
      else if profile = PICO_VOICE_PROFILE_ROBOT
        then default_voice_params\<lparr>pitch_scale := Finite 0.90\<rparr>
      else if profile = PICO_VOICE_PROFILE_SLOW
        then default_voice_params\<lparr>speed_scale := Finite 0.75\<rparr>
      else if profile = PICO_VOICE_PROFILE_FAST
        then default_voice_params\<lparr>speed_scale := Finite 1.40\<rparr>
      else default_voice_params)"

definition spec_profile_prosody :: "pico_voice_profile_t \<Rightarrow> pico_prosody_params" where
  "spec_profile_prosody profile =
     (if profile = PICO_VOICE_PROFILE_ROBOT
        then default_prosody_params\<lparr>emphasis_scale := Finite 0.50\<rparr>
      else if profile = PICO_VOICE_PROFILE_SLOW
        then default_prosody_params\<lparr>pause_scale := Finite 1.30\<rparr>
      else if profile = PICO_VOICE_PROFILE_FAST
        then default_prosody_params\<lparr>pause_scale := Finite 0.80\<rparr>
      else default_prosody_params)"

text \<open>A state every operation of the module can be run from: the one \<^verbatim>\<open>pico_quality_init\<close> makes.\<close>

definition initial_quality_globals :: quality_globals where
  "initial_quality_globals = snd (pico_quality_init static_quality_globals)"

text \<open>The two tests \<^verbatim>\<open>pico_set_prosody_params\<close> makes on \<open>question_boost\<close>, as one function.\<close>

definition clamp_boost :: "picoos_int8 \<Rightarrow> picoos_int8" where
  "clamp_boost q = (if q <s 0 then 0 else if 100 <s q then 100 else q)"

text \<open>The values that name an enumerator of \<^verbatim>\<open>pico_voice_profile_t\<close>.\<close>

definition known_voice_profile :: "pico_voice_profile_t \<Rightarrow> bool" where
  "known_voice_profile profile =
     (profile = PICO_VOICE_PROFILE_DEFAULT \<or> profile = PICO_VOICE_PROFILE_MALE \<or>
      profile = PICO_VOICE_PROFILE_FEMALE \<or> profile = PICO_VOICE_PROFILE_CHILD \<or>
      profile = PICO_VOICE_PROFILE_ROBOT \<or> profile = PICO_VOICE_PROFILE_SLOW \<or>
      profile = PICO_VOICE_PROFILE_FAST)"

section \<open>Saturating addition\<close>

lemma sint16_bounds: "- 32768 \<le> sint (a :: 16 word) \<and> sint a \<le> 32767"
  using sint_ge [of a] sint_lt [of a] by simp

lemma sint_sum32: "sint ((scast (a :: 16 word) :: 32 word) + scast (b :: 16 word)) = sint a + sint b"
proof -
  have sa: "sint (scast a :: 32 word) = sint a" by (simp add: sint_up_scast is_up)
  have sb: "sint (scast b :: 32 word) = sint b" by (simp add: sint_up_scast is_up)
  have "sint ((scast a :: 32 word) + scast b) = signed_take_bit 31 (sint a + sint b)"
    by (simp add: sint_word_add sa sb)
  also have "\<dots> = sint a + sint b"
    using sint16_bounds [of a] sint16_bounds [of b]
    by (intro signed_take_bit_int_eq_self) auto
  finally show ?thesis .
qed

lemma ucast_32_16_sint: "(ucast (r :: 32 word) :: 16 word) = word_of_int (sint r)"
proof -
  have "take_bit 16 (uint r) = take_bit 16 (sint r)"
    by (simp add: uint_sint)
  then have "(word_of_int (uint r) :: 16 word) = word_of_int (sint r)"
    by (simp only: word_of_int_eq_iff) simp
  then show ?thesis
    by (simp only: ucast_eq)
qed

lemma sint_ucast_32_16:
  assumes "- 32768 \<le> sint (r :: 32 word)" "sint r \<le> 32767"
  shows "sint (ucast r :: 16 word) = sint r"
proof -
  have "sint (word_of_int (sint r) :: 16 word) = signed_take_bit 15 (sint r)"
    unfolding sint_sbintrunc' by simp
  also have "\<dots> = sint r"
    using assms by (intro signed_take_bit_int_eq_self) auto
  finally show ?thesis unfolding ucast_32_16_sint .
qed

lemma add_sat_clamp: "sint (pico_q15_add_sat a b) = max (- 32768) (min 32767 (sint a + sint b))"
proof -
  let ?r = "(scast a :: 32 word) + scast b"
  have r: "sint ?r = sint a + sint b" by (rule sint_sum32)
  have mx: "sint (scast PICO_Q15_MAX :: 32 word) = 32767" by (simp add: PICO_Q15_MAX_def)
  have mn: "sint (scast PICO_Q15_MIN :: 32 word) = - 32768" by (simp add: PICO_Q15_MIN_def)
  have mx16: "sint PICO_Q15_MAX = 32767" by (simp add: PICO_Q15_MAX_def)
  have mn16: "sint PICO_Q15_MIN = - 32768" by (simp add: PICO_Q15_MIN_def)
  consider (hi) "32767 < sint a + sint b" | (lo) "sint a + sint b < - 32768"
    | (mid) "- 32768 \<le> sint a + sint b" "sint a + sint b \<le> 32767" by linarith
  then show ?thesis
  proof cases
    case hi
    then show ?thesis
      by (simp add: pico_q15_add_sat_def Let_def word_sless_alt r mx mx16)
  next
    case lo
    then show ?thesis
      by (simp add: pico_q15_add_sat_def Let_def word_sless_alt r mx mn mn16)
  next
    case mid
    then have "sint (ucast ?r :: 16 word) = sint a + sint b"
      using sint_ucast_32_16 [of ?r] r by simp
    with mid show ?thesis
      by (simp add: pico_q15_add_sat_def Let_def word_sless_alt r mx mn)
  qed
qed

text \<open>
  C7. Read as signed numbers, \<open>pico_q15_add_sat a b\<close> is the sum \<open>a + b\<close> clamped into
  \<open>[-32768, 32767]\<close>: it never leaves that range, and it is the ordinary sum whenever
  the sum already lies in the range.
\<close>

theorem pico_q15_add_sat_saturates:
  "sint (pico_q15_add_sat a b) = max (- 32768) (min 32767 (sint a + sint b)) \<and>
   - 32768 \<le> sint (pico_q15_add_sat a b) \<and> sint (pico_q15_add_sat a b) \<le> 32767 \<and>
   (- 32768 \<le> sint a + sint b \<and> sint a + sint b \<le> 32767 \<longrightarrow>
      sint (pico_q15_add_sat a b) = sint a + sint b)"
  unfolding add_sat_clamp by auto

theorem pico_q15_add_sat_saturates_witness:
  "- 32768 \<le> sint (100 :: pico_q15_t) + sint (200 :: pico_q15_t) \<and>
   sint (100 :: pico_q15_t) + sint (200 :: pico_q15_t) \<le> 32767 \<and>
   sint (pico_q15_add_sat 100 200) = 300 \<and> pico_q15_add_sat 100 200 = 300"
proof -
  have "pico_q15_add_sat 100 200 = 300"
    by (simp add: pico_q15_add_sat_def PICO_Q15_MAX_def PICO_Q15_MIN_def)
  then show ?thesis
    using pico_q15_add_sat_saturates [of 100 200] by simp
qed

section \<open>White noise\<close>

lemma upper_half_mask:
  "(ucast (drop_bit 16 (s :: 32 word) AND 0xFFFF) :: 16 word) = ucast (drop_bit 16 s)"
proof -
  have "(0xFFFF :: 32 word) = mask 16" by (simp add: mask_eq_exp_minus_1)
  then have "drop_bit 16 s AND 0xFFFF = take_bit 16 (drop_bit 16 s)"
    by (simp add: take_bit_eq_mask)
  moreover have "(ucast (take_bit 16 (drop_bit 16 s)) :: 16 word) = ucast (drop_bit 16 s)"
    by (simp only: ucast_eq word_of_int_eq_iff unsigned_take_bit_eq) simp
  ultimately show ?thesis by simp
qed

lemma uint_upper_half: "uint (ucast (drop_bit 16 (s :: 32 word)) :: 16 word) = uint s div 65536"
proof -
  have "uint s < 2 ^ 32" using uint_lt2p [of s] by simp
  then have "uint s div 65536 < 65536" by simp
  moreover have "0 \<le> uint s div 65536" by (simp add: pos_imp_zdiv_nonneg_iff)
  ultimately have "take_bit 16 (uint s div 65536) = uint s div 65536"
    by (simp add: take_bit_int_eq_self)
  then show ?thesis
    by (simp add: unsigned_ucast_eq unsigned_drop_bit_eq drop_bit_eq_div take_bit_int_eq_self
        uint_div_distrib)
qed

lemma white_noise_sample:
  "fst (pico_generate_white_noise seed) = ucast (drop_bit 16 (seed * 1664525 + 1013904223)) - 16384"
  unfolding pico_generate_white_noise_def Let_def
  by (simp add: upper_half_mask)

lemma white_noise_sample_int:
  "sint (fst (pico_generate_white_noise seed)) =
     signed_take_bit 15 (uint (seed * 1664525 + 1013904223) div 65536 - 16384)"
proof -
  let ?h = "ucast (drop_bit 16 (seed * 1664525 + 1013904223)) :: 16 word"
  have "sint (?h - 16384) = signed_take_bit 15 (sint ?h - sint (16384 :: 16 word))"
    by (simp add: sint_word_diff)
  also have "\<dots> = signed_take_bit 15 (signed_take_bit 15 (uint ?h) - signed_take_bit 15 16384)"
    by (simp add: sint_uint)
  also have "\<dots> = signed_take_bit 15 (uint ?h - 16384)"
    by (rule signed_take_bit_diff)
  finally show ?thesis
    by (simp add: white_noise_sample uint_upper_half)
qed

lemma white_noise_seed:
  "unat (snd (pico_generate_white_noise seed)) = (unat seed * 1664525 + 1013904223) mod 2 ^ 32"
  unfolding pico_generate_white_noise_def Let_def
  by (simp add: unat_word_ariths mod_simps)

lemma white_noise_golden:
  "white_noise_run 5 12345 = ([- 15047, - 15300, 19212, 25225, - 22281], 3908547000)"
  by code_simp

text \<open>
  C4. One call replaces the seed by \<open>seed * 1664525 + 1013904223\<close> modulo \<open>2^32\<close> and
  returns the upper 16 bits of the new seed minus 16384, in 16-bit two's complement
  (as a number: the difference wrapped into the signed 16-bit range). From the seed
  12345 five calls give the samples -15047, -15300, 19212, 25225, -22281, always.
\<close>

theorem pico_generate_white_noise_lcg:
  "unat (snd (pico_generate_white_noise seed)) = (unat seed * 1664525 + 1013904223) mod 2 ^ 32 \<and>
   fst (pico_generate_white_noise seed)
     = ucast (drop_bit 16 (snd (pico_generate_white_noise seed))) - 16384 \<and>
   sint (fst (pico_generate_white_noise seed))
     = signed_take_bit 15 (uint (snd (pico_generate_white_noise seed)) div 65536 - 16384) \<and>
   map sint (fst (white_noise_run 5 12345)) = [- 15047, - 15300, 19212, 25225, - 22281]"
proof -
  have s: "snd (pico_generate_white_noise seed) = seed * 1664525 + 1013904223"
    by (simp add: pico_generate_white_noise_def Let_def)
  show ?thesis
    unfolding white_noise_golden
    using white_noise_seed [of seed] white_noise_sample [of seed] white_noise_sample_int [of seed]
    by (simp add: s)
qed

section \<open>Voice and prosody parameters\<close>

lemma sint8_small: "0 \<le> sint (m :: 8 word) \<Longrightarrow> sint m \<le> 2 \<Longrightarrow> m = 0 \<or> m = 1 \<or> m = 2"
proof -
  assume a: "0 \<le> sint m" "sint m \<le> 2"
  then have "sint m = 0 \<or> sint m = 1 \<or> sint m = 2" by arith
  moreover have "sint m = 0 \<Longrightarrow> m = 0" using signed_word_eqI [of m 0] by simp
  moreover have "sint m = 1 \<Longrightarrow> m = 1" using signed_word_eqI [of m 1] by simp
  moreover have "sint m = 2 \<Longrightarrow> m = 2" using signed_word_eqI [of m 2] by simp
  ultimately show ?thesis by blast
qed

lemma quality_mode_check:
  "(m <s PICO_QUALITY_MODE_SPEED \<or> PICO_QUALITY_MODE_QUALITY <s m) = (\<not> quality_mode_ok m)"
proof -
  have "quality_mode_ok m \<longleftrightarrow> (0 \<le> sint m \<and> sint m \<le> 2)"
    using sint8_small [of m]
    by (auto simp: quality_mode_ok_def PICO_QUALITY_MODE_SPEED_def PICO_QUALITY_MODE_BALANCED_def
        PICO_QUALITY_MODE_QUALITY_def)
  then show ?thesis
    by (auto simp: word_sless_alt PICO_QUALITY_MODE_SPEED_def PICO_QUALITY_MODE_QUALITY_def)
qed

lemma single_range_check:
  "v \<noteq> NaN \<Longrightarrow> (single_less v (Finite lo) \<or> single_less (Finite hi) v) = (\<not> single_in_range v lo hi)"
  by (cases v) (auto simp: single_in_range_def)

lemma single_range_check_nan:
  "\<not> single_less NaN (Finite lo) \<and> \<not> single_less (Finite hi) NaN \<and> \<not> single_in_range NaN lo hi"
  by (simp add: single_in_range_def)

lemmas bounds_defs =
  PICO_PITCH_SCALE_MIN_def PICO_PITCH_SCALE_MAX_def PICO_SPEED_SCALE_MIN_def
  PICO_SPEED_SCALE_MAX_def PICO_FORMANT_SHIFT_MIN_def PICO_FORMANT_SHIFT_MAX_def

lemma validate_ordered:
  assumes "pitch_scale p \<noteq> NaN" "speed_scale p \<noteq> NaN" "formant_shift p \<noteq> NaN"
  shows "pico_validate_voice_params (Some p) =
           (if voice_params_in_bounds p then PICO_OK else PICO_ERR_OTHER)"
  using assms
  by (simp add: pico_validate_voice_params_def bounds_defs single_range_check quality_mode_check
      voice_params_in_bounds_def)

lemma set_voice_params_rejects_numbers:
  assumes "pitch_scale p \<noteq> NaN" "speed_scale p \<noteq> NaN" "formant_shift p \<noteq> NaN"
    and "\<not> voice_params_in_bounds p"
  shows "pico_set_voice_params (Some p) g = (PICO_ERR_OTHER, g)"
  using assms by (simp add: pico_set_voice_params_def validate_ordered)

lemma set_voice_params_accepts_in_bounds:
  assumes "voice_params_in_bounds p"
  shows "pico_set_voice_params (Some p) g =
           (PICO_OK, g\<lparr>g_quality_ctx := (g_quality_ctx g)\<lparr>voice_params := p\<rparr>\<rparr>)"
proof -
  from assms have "pitch_scale p \<noteq> NaN" "speed_scale p \<noteq> NaN" "formant_shift p \<noteq> NaN"
    by (auto simp: voice_params_in_bounds_def single_in_range_def)
  with assms show ?thesis by (simp add: pico_set_voice_params_def validate_ordered)
qed

lemma set_voice_params_all_or_nothing:
  "(fst (pico_set_voice_params params g) = PICO_OK \<longrightarrow>
      (\<exists>p. params = Some p \<and> voice_params (g_quality_ctx (snd (pico_set_voice_params params g))) = p)) \<and>
   (fst (pico_set_voice_params params g) \<noteq> PICO_OK \<longrightarrow> snd (pico_set_voice_params params g) = g)"
  by (cases params) (auto simp: pico_set_voice_params_def Let_def)

lemmas default_defs =
  PICO_DEFAULT_PITCH_SCALE_def PICO_DEFAULT_SPEED_SCALE_def PICO_DEFAULT_FORMANT_SHIFT_def
  PICO_DEFAULT_EMPHASIS_SCALE_def PICO_DEFAULT_PAUSE_SCALE_def PICO_DEFAULT_QUESTION_BOOST_def
  PICO_DEFAULT_QUALITY_MODE_def PICO_QUALITY_MODE_BALANCED_def PICO_QUALITY_MODE_SPEED_def
  PICO_QUALITY_MODE_QUALITY_def PICO_NOISE_FILTER_ORDER_def

lemma initial_quality_globals_eq:
  "initial_quality_globals =
     \<lparr>g_quality_ctx =
        \<lparr>voice_params = default_voice_params, prosody_params = default_prosody_params,
         noise_filter = \<lparr>state = replicate 8 0, coeffs = replicate 8 0, order = 8\<rparr>,
         random_seed = 12345, initialized = 1\<rparr>,
      g_quality_stats = \<lparr>noise_samples_generated = 0, filter_updates = 0,
                         pitch_adjustments = 0, formant_shifts = 0\<rparr>\<rparr>"
  by (simp add: initial_quality_globals_def pico_quality_init_def static_quality_globals_def
      pico_reset_quality_stats_def default_defs default_voice_params_def default_prosody_params_def)

text \<open>
  C2. The claim fails on the code at a NaN: a parameter set whose \<open>pitch_scale\<close> is a
  NaN is not within the bounds, yet \<open>pico_set_voice_params\<close> returns \<open>PICO_OK\<close> and
  makes it the active set. (For sets without a NaN the claim holds: see
  \<open>set_voice_params_rejects_numbers\<close> and \<open>set_voice_params_all_or_nothing\<close>.)
\<close>

theorem pico_set_voice_params_nan_pitch:
  "\<not> voice_params_in_bounds
       \<lparr>pitch_scale = NaN, speed_scale = Finite 1, formant_shift = Finite 0, quality_mode = 1\<rparr> \<and>
   pico_set_voice_params
     (Some \<lparr>pitch_scale = NaN, speed_scale = Finite 1, formant_shift = Finite 0, quality_mode = 1\<rparr>)
     initial_quality_globals
   = (PICO_OK,
      initial_quality_globals\<lparr>g_quality_ctx := (g_quality_ctx initial_quality_globals)
        \<lparr>voice_params :=
           \<lparr>pitch_scale = NaN, speed_scale = Finite 1, formant_shift = Finite 0, quality_mode = 1\<rparr>\<rparr>\<rparr>)"
  by (simp add: voice_params_in_bounds_def single_in_range_def pico_set_voice_params_def
      pico_validate_voice_params_def bounds_defs PICO_QUALITY_MODE_SPEED_def
      PICO_QUALITY_MODE_QUALITY_def word_sless_alt)


lemma clamp_float_in_range:
  "v \<noteq> NaN \<Longrightarrow> lo \<le> hi \<Longrightarrow> single_in_range (pico_clamp_float v (Finite lo) (Finite hi)) lo hi"
  by (cases v) (auto simp: pico_clamp_float_def single_in_range_def)

lemma clamp_float_id:
  "single_in_range v lo hi \<Longrightarrow> pico_clamp_float v (Finite lo) (Finite hi) = v"
  by (cases v) (auto simp: pico_clamp_float_def single_in_range_def)

lemma clamp_float_nan: "pico_clamp_float NaN mn mx = NaN"
  by (simp add: pico_clamp_float_def)

lemma clamp_boost_range: "0 \<le> sint (clamp_boost q) \<and> sint (clamp_boost q) \<le> 100"
  by (simp add: clamp_boost_def word_sless_alt)

lemma set_prosody_params_eq:
  "pico_set_prosody_params (Some p) g =
     (PICO_OK,
      Some \<lparr>emphasis_scale = pico_clamp_float (emphasis_scale p) (Finite 0.5) (Finite 2.0),
            pause_scale = pico_clamp_float (pause_scale p) (Finite 0.5) (Finite 2.0),
            question_boost = clamp_boost (question_boost p)\<rparr>,
      g\<lparr>g_quality_ctx := (g_quality_ctx g)\<lparr>prosody_params :=
          \<lparr>emphasis_scale = pico_clamp_float (emphasis_scale p) (Finite 0.5) (Finite 2.0),
           pause_scale = pico_clamp_float (pause_scale p) (Finite 0.5) (Finite 2.0),
           question_boost = clamp_boost (question_boost p)\<rparr>\<rparr>\<rparr>)"
  by (cases p) (simp add: pico_set_prosody_params_def Let_def clamp_boost_def word_sless_alt)

lemma set_prosody_params_clamps_numbers:
  assumes "emphasis_scale p \<noteq> NaN" "pause_scale p \<noteq> NaN"
  shows "\<exists>p'. pico_set_prosody_params (Some p) g
            = (PICO_OK, Some p', g\<lparr>g_quality_ctx := (g_quality_ctx g)\<lparr>prosody_params := p'\<rparr>\<rparr>) \<and>
          prosody_params_in_bounds p'"
  using assms clamp_boost_range [of "question_boost p"]
  by (simp add: set_prosody_params_eq prosody_params_in_bounds_def clamp_float_in_range)

text \<open>
  C8. The claim fails on the code at a NaN: \<open>pico_set_prosody_params\<close> returns
  \<open>PICO_OK\<close> on a structure whose \<open>emphasis_scale\<close> is a NaN, and the active
  \<open>emphasis_scale\<close> is then that NaN, which is not in \<open>[0.5, 2.0]\<close>. (For structures
  without a NaN the claim holds: see \<open>set_prosody_params_clamps_numbers\<close>.)
\<close>

theorem pico_set_prosody_params_nan_emphasis:
  "pico_set_prosody_params
     (Some \<lparr>emphasis_scale = NaN, pause_scale = Finite 1, question_boost = 50\<rparr>)
     initial_quality_globals
   = (PICO_OK,
      Some \<lparr>emphasis_scale = NaN, pause_scale = Finite 1, question_boost = 50\<rparr>,
      initial_quality_globals\<lparr>g_quality_ctx := (g_quality_ctx initial_quality_globals)
        \<lparr>prosody_params := \<lparr>emphasis_scale = NaN, pause_scale = Finite 1, question_boost = 50\<rparr>\<rparr>\<rparr>) \<and>
   \<not> single_in_range
       (emphasis_scale (prosody_params (g_quality_ctx (snd (snd (pico_set_prosody_params
          (Some \<lparr>emphasis_scale = NaN, pause_scale = Finite 1, question_boost = 50\<rparr>)
          initial_quality_globals)))))) 0.5 2.0"
  by (simp add: set_prosody_params_eq clamp_float_nan clamp_boost_def word_sless_alt
      pico_clamp_float_def single_in_range_def)

text \<open>
  C10. The call does write the clamped values into the caller's structure
  (\<open>set_prosody_params_eq\<close>), but a NaN is left as it is: after the call on
  \<open>(3.0, NaN, 120)\<close> the caller's structure holds \<open>(2.0, NaN, 100)\<close>, whose
  \<open>pause_scale\<close> is not in \<open>[0.5, 2.0]\<close>.
\<close>

theorem pico_set_prosody_params_caller_nan_pause:
  "fst (snd (pico_set_prosody_params
     (Some \<lparr>emphasis_scale = Finite 3, pause_scale = NaN, question_boost = 120\<rparr>)
     initial_quality_globals))
   = Some \<lparr>emphasis_scale = Finite 2, pause_scale = NaN, question_boost = 100\<rparr> \<and>
   \<not> prosody_params_in_bounds \<lparr>emphasis_scale = Finite 2, pause_scale = NaN, question_boost = 100\<rparr>"
  by (simp add: set_prosody_params_eq clamp_float_nan clamp_boost_def word_sless_alt
      pico_clamp_float_def single_in_range_def prosody_params_in_bounds_def)

lemmas profile_defs =
  PICO_VOICE_PROFILE_DEFAULT_def PICO_VOICE_PROFILE_MALE_def PICO_VOICE_PROFILE_FEMALE_def
  PICO_VOICE_PROFILE_CHILD_def PICO_VOICE_PROFILE_ROBOT_def PICO_VOICE_PROFILE_SLOW_def
  PICO_VOICE_PROFILE_FAST_def

lemmas profile_value_defs =
  PICO_MALE_PITCH_SCALE_def PICO_MALE_FORMANT_SHIFT_def PICO_FEMALE_PITCH_SCALE_def
  PICO_FEMALE_FORMANT_SHIFT_def PICO_CHILD_PITCH_SCALE_def PICO_CHILD_SPEED_SCALE_def
  PICO_ROBOT_PITCH_SCALE_def PICO_ROBOT_EMPHASIS_SCALE_def PICO_SLOW_SPEED_SCALE_def
  PICO_SLOW_PAUSE_SCALE_def PICO_FAST_SPEED_SCALE_def PICO_FAST_PAUSE_SCALE_def

lemma profile_settings_eq:
  "profile_settings profile
     (v\<lparr>pitch_scale := PICO_DEFAULT_PITCH_SCALE, speed_scale := PICO_DEFAULT_SPEED_SCALE,
        formant_shift := PICO_DEFAULT_FORMANT_SHIFT\<rparr>,
      q\<lparr>emphasis_scale := PICO_DEFAULT_EMPHASIS_SCALE, pause_scale := PICO_DEFAULT_PAUSE_SCALE\<rparr>)
   = ((spec_profile_voice profile)\<lparr>quality_mode := quality_mode v\<rparr>,
      (spec_profile_prosody profile)\<lparr>question_boost := question_boost q\<rparr>)"
  by (cases v, cases q)
     (simp add: profile_settings_def spec_profile_voice_def spec_profile_prosody_def profile_defs
       profile_value_defs default_defs default_voice_params_def default_prosody_params_def Let_def)

lemma spec_profile_voice_bounds:
  "quality_mode_ok m \<Longrightarrow> voice_params_in_bounds ((spec_profile_voice profile)\<lparr>quality_mode := m\<rparr>)"
  by (simp add: spec_profile_voice_def voice_params_in_bounds_def single_in_range_def
      default_voice_params_def)

lemma spec_profile_prosody_clamp:
  "pico_clamp_float (emphasis_scale (spec_profile_prosody profile)) (Finite 0.5) (Finite 2.0)
     = emphasis_scale (spec_profile_prosody profile) \<and>
   pico_clamp_float (pause_scale (spec_profile_prosody profile)) (Finite 0.5) (Finite 2.0)
     = pause_scale (spec_profile_prosody profile)"
  by (simp add: spec_profile_prosody_def default_prosody_params_def pico_clamp_float_def)

lemma apply_voice_profile_eq:
  assumes "quality_mode_ok (quality_mode (voice_params (g_quality_ctx g)))"
  shows "pico_apply_voice_profile profile g =
    (PICO_OK,
     g\<lparr>g_quality_ctx := (g_quality_ctx g)
        \<lparr>voice_params := (spec_profile_voice profile)
            \<lparr>quality_mode := quality_mode (voice_params (g_quality_ctx g))\<rparr>,
         prosody_params := (spec_profile_prosody profile)
            \<lparr>question_boost := clamp_boost (question_boost (prosody_params (g_quality_ctx g)))\<rparr>\<rparr>\<rparr>)"
proof -
  let ?v = "(spec_profile_voice profile)\<lparr>quality_mode := quality_mode (voice_params (g_quality_ctx g))\<rparr>"
  let ?q = "(spec_profile_prosody profile)\<lparr>question_boost := question_boost (prosody_params (g_quality_ctx g))\<rparr>"
  have v: "pico_set_voice_params (Some ?v) g
             = (PICO_OK, g\<lparr>g_quality_ctx := (g_quality_ctx g)\<lparr>voice_params := ?v\<rparr>\<rparr>)"
    by (rule set_voice_params_accepts_in_bounds) (rule spec_profile_voice_bounds [OF assms])
  show ?thesis
    unfolding pico_apply_voice_profile_def Let_def profile_settings_eq
    using spec_profile_prosody_clamp [of profile]
    by (simp add: v set_prosody_params_eq)
qed



text \<open>
  The quality mode is one of the three modes in the static state, and every operation
  of the module keeps it so.
\<close>

lemma quality_mode_ok_static:
  "quality_mode_ok (quality_mode (voice_params (g_quality_ctx static_quality_globals)))"
  by (simp add: static_quality_globals_def quality_mode_ok_def PICO_QUALITY_MODE_SPEED_def)

lemma quality_mode_ok_init:
  "quality_mode_ok (quality_mode (voice_params (g_quality_ctx g))) \<Longrightarrow>
   quality_mode_ok (quality_mode (voice_params (g_quality_ctx (snd (pico_quality_init g)))))"
  by (simp add: pico_quality_init_def pico_reset_quality_stats_def Let_def quality_mode_ok_def
      PICO_DEFAULT_QUALITY_MODE_def)

lemma quality_mode_ok_set_quality_mode:
  "quality_mode_ok (quality_mode (voice_params (g_quality_ctx g))) \<Longrightarrow>
   quality_mode_ok (quality_mode (voice_params (g_quality_ctx (snd (pico_set_quality_mode m g)))))"
  by (simp add: pico_set_quality_mode_def quality_mode_check)

lemma quality_mode_ok_set_voice_params:
  "quality_mode_ok (quality_mode (voice_params (g_quality_ctx g))) \<Longrightarrow>
   quality_mode_ok (quality_mode (voice_params (g_quality_ctx (snd (pico_set_voice_params params g)))))"
  by (cases params)
     (simp_all add: pico_set_voice_params_def pico_validate_voice_params_def quality_mode_check
       Let_def)

lemma quality_mode_ok_set_prosody_params:
  "quality_mode_ok (quality_mode (voice_params (g_quality_ctx g))) \<Longrightarrow>
   quality_mode_ok (quality_mode (voice_params (g_quality_ctx
     (snd (snd (pico_set_prosody_params params g))))))"
  by (cases params) (simp_all add: pico_set_prosody_params_def Let_def)

lemma quality_mode_ok_apply_voice_profile:
  "quality_mode_ok (quality_mode (voice_params (g_quality_ctx g))) \<Longrightarrow>
   quality_mode_ok (quality_mode (voice_params (g_quality_ctx
     (snd (pico_apply_voice_profile profile g)))))"
  by (simp add: apply_voice_profile_eq)

text \<open>
  C3, as stated, fails: the profile does not reset \<open>quality_mode\<close> (nor
  \<open>question_boost\<close>). After the mode was set to "quality", applying the female profile
  leaves the mode at "quality", so the voice parameters are not the documented
  defaults overlaid with the profile.
\<close>

theorem pico_apply_voice_profile_mode_counterexample:
  "quality_mode (voice_params (g_quality_ctx (snd (pico_apply_voice_profile PICO_VOICE_PROFILE_FEMALE
       (snd (pico_set_quality_mode PICO_QUALITY_MODE_QUALITY initial_quality_globals))))))
     = PICO_QUALITY_MODE_QUALITY \<and>
   quality_mode (spec_profile_voice PICO_VOICE_PROFILE_FEMALE) = PICO_QUALITY_MODE_BALANCED \<and>
   voice_params (g_quality_ctx (snd (pico_apply_voice_profile PICO_VOICE_PROFILE_FEMALE
       (snd (pico_set_quality_mode PICO_QUALITY_MODE_QUALITY initial_quality_globals)))))
     \<noteq> spec_profile_voice PICO_VOICE_PROFILE_FEMALE"
proof -
  have m: "quality_mode_ok (quality_mode (voice_params (g_quality_ctx
             (snd (pico_set_quality_mode PICO_QUALITY_MODE_QUALITY initial_quality_globals)))))"
    by (simp add: pico_set_quality_mode_def quality_mode_ok_def PICO_QUALITY_MODE_QUALITY_def
        PICO_QUALITY_MODE_SPEED_def word_sless_alt)
  have q: "quality_mode (voice_params (g_quality_ctx
             (snd (pico_set_quality_mode PICO_QUALITY_MODE_QUALITY initial_quality_globals))))
           = PICO_QUALITY_MODE_QUALITY"
    by (simp add: pico_set_quality_mode_def PICO_QUALITY_MODE_QUALITY_def
        PICO_QUALITY_MODE_SPEED_def word_sless_alt)
  have d: "quality_mode (spec_profile_voice PICO_VOICE_PROFILE_FEMALE) = PICO_QUALITY_MODE_BALANCED"
    by (simp add: spec_profile_voice_def default_voice_params_def profile_defs)
  have ne: "PICO_QUALITY_MODE_QUALITY \<noteq> PICO_QUALITY_MODE_BALANCED"
    by (simp add: PICO_QUALITY_MODE_QUALITY_def PICO_QUALITY_MODE_BALANCED_def)
  let ?after = "voice_params (g_quality_ctx (snd (pico_apply_voice_profile PICO_VOICE_PROFILE_FEMALE
       (snd (pico_set_quality_mode PICO_QUALITY_MODE_QUALITY initial_quality_globals)))))"
  have qa: "quality_mode ?after = PICO_QUALITY_MODE_QUALITY"
    by (simp add: apply_voice_profile_eq [OF m] q)
  have "?after \<noteq> spec_profile_voice PICO_VOICE_PROFILE_FEMALE"
  proof
    assume "?after = spec_profile_voice PICO_VOICE_PROFILE_FEMALE"
    then have "quality_mode ?after = quality_mode (spec_profile_voice PICO_VOICE_PROFILE_FEMALE)"
      by simp
    with qa d ne show False by simp
  qed
  with qa d show ?thesis by simp
qed

text \<open>
  C3, amended. From every state whose quality mode is one of the three modes (every
  state the module reaches), \<open>pico_apply_voice_profile\<close> returns \<open>PICO_OK\<close> and sets
  \<open>pitch_scale\<close>, \<open>speed_scale\<close>, \<open>formant_shift\<close>, \<open>emphasis_scale\<close> and
  \<open>pause_scale\<close> to the documented defaults overlaid with the overrides of the one
  profile chosen, whatever they were before; \<open>quality_mode\<close> keeps its value and
  \<open>question_boost\<close> keeps its value clamped into \<open>[0, 100]\<close>. For the female profile
  \<open>pitch_scale\<close> is 1.25 and \<open>formant_shift\<close> is 150.
\<close>

theorem pico_apply_voice_profile_overlay:
  assumes mode: "quality_mode_ok (quality_mode (voice_params (g_quality_ctx g)))"
  shows "pico_apply_voice_profile profile g =
    (PICO_OK,
     g\<lparr>g_quality_ctx := (g_quality_ctx g)
        \<lparr>voice_params := (spec_profile_voice profile)
            \<lparr>quality_mode := quality_mode (voice_params (g_quality_ctx g))\<rparr>,
         prosody_params := (spec_profile_prosody profile)
            \<lparr>question_boost := clamp_boost (question_boost (prosody_params (g_quality_ctx g)))\<rparr>\<rparr>\<rparr>) \<and>
   pitch_scale (voice_params (g_quality_ctx (snd (pico_apply_voice_profile PICO_VOICE_PROFILE_FEMALE g))))
     = Finite 1.25 \<and>
   formant_shift (voice_params (g_quality_ctx (snd (pico_apply_voice_profile PICO_VOICE_PROFILE_FEMALE g))))
     = Finite 150"
proof -
  have female: "spec_profile_voice PICO_VOICE_PROFILE_FEMALE
                  = default_voice_params\<lparr>pitch_scale := Finite 1.25, formant_shift := Finite 150\<rparr>"
    by (simp add: spec_profile_voice_def profile_defs)
  have "voice_params (g_quality_ctx (snd (pico_apply_voice_profile PICO_VOICE_PROFILE_FEMALE g)))
          = (spec_profile_voice PICO_VOICE_PROFILE_FEMALE)
              \<lparr>quality_mode := quality_mode (voice_params (g_quality_ctx g))\<rparr>"
    by (simp add: apply_voice_profile_eq [OF mode])
  then have "pitch_scale (voice_params (g_quality_ctx
                 (snd (pico_apply_voice_profile PICO_VOICE_PROFILE_FEMALE g)))) = Finite 1.25"
    and "formant_shift (voice_params (g_quality_ctx
                 (snd (pico_apply_voice_profile PICO_VOICE_PROFILE_FEMALE g)))) = Finite 150"
    by (simp_all add: female)
  then show ?thesis
    using apply_voice_profile_eq [OF mode, of profile] by simp
qed

theorem pico_apply_voice_profile_overlay_witness:
  "quality_mode_ok (quality_mode (voice_params (g_quality_ctx
      (snd (pico_set_quality_mode PICO_QUALITY_MODE_QUALITY initial_quality_globals))))) \<and>
   voice_params (g_quality_ctx (snd (pico_apply_voice_profile PICO_VOICE_PROFILE_FEMALE
      (snd (pico_set_quality_mode PICO_QUALITY_MODE_QUALITY initial_quality_globals)))))
     = \<lparr>pitch_scale = Finite 1.25, speed_scale = Finite 1, formant_shift = Finite 150,
        quality_mode = 2\<rparr> \<and>
   prosody_params (g_quality_ctx (snd (pico_apply_voice_profile PICO_VOICE_PROFILE_FEMALE
      (snd (pico_set_quality_mode PICO_QUALITY_MODE_QUALITY initial_quality_globals)))))
     = \<lparr>emphasis_scale = Finite 1, pause_scale = Finite 1, question_boost = 50\<rparr>"
proof -
  have m: "quality_mode_ok (quality_mode (voice_params (g_quality_ctx
             (snd (pico_set_quality_mode PICO_QUALITY_MODE_QUALITY initial_quality_globals)))))"
    by (simp add: pico_set_quality_mode_def quality_mode_ok_def PICO_QUALITY_MODE_QUALITY_def
        PICO_QUALITY_MODE_SPEED_def word_sless_alt)
  show ?thesis
    using m pico_apply_voice_profile_overlay [OF m, of PICO_VOICE_PROFILE_FEMALE]
    by (simp add: spec_profile_voice_def spec_profile_prosody_def profile_defs
        default_voice_params_def default_prosody_params_def clamp_boost_def word_sless_alt
        pico_set_quality_mode_def PICO_QUALITY_MODE_QUALITY_def PICO_QUALITY_MODE_SPEED_def
        PICO_QUALITY_MODE_BALANCED_def initial_quality_globals_eq)
qed

text \<open>
  C9, as stated, fails for the profile: the value 7 names no enumerator of
  \<open>pico_voice_profile_t\<close>, and \<open>pico_apply_voice_profile\<close> answers it with \<open>PICO_OK\<close>.
\<close>

theorem pico_apply_voice_profile_unknown_counterexample:
  "\<not> known_voice_profile 7 \<and> fst (pico_apply_voice_profile 7 initial_quality_globals) = PICO_OK"
  by (simp add: known_voice_profile_def profile_defs pico_apply_voice_profile_def Let_def
      split_beta)

text \<open>
  C9, amended. \<open>pico_set_quality_mode\<close> with a mode outside the three modes returns the
  generic error \<open>PICO_ERR_OTHER\<close> to its caller and changes nothing.
  \<open>pico_apply_voice_profile\<close> with a value that names no enumerator falls into the
  \<open>default\<close> branch of the switch: it returns \<open>PICO_OK\<close> and does exactly what the
  default profile does.
\<close>

theorem pico_unsupported_values:
  "(\<not> quality_mode_ok mode \<longrightarrow> pico_set_quality_mode mode g = (PICO_ERR_OTHER, g)) \<and>
   (\<not> known_voice_profile profile \<longrightarrow>
      fst (pico_apply_voice_profile profile g) = PICO_OK \<and>
      pico_apply_voice_profile profile g = pico_apply_voice_profile PICO_VOICE_PROFILE_DEFAULT g)"
proof -
  have "\<not> known_voice_profile profile \<Longrightarrow>
          profile_settings profile = profile_settings PICO_VOICE_PROFILE_DEFAULT"
    by (rule ext) (simp add: known_voice_profile_def profile_settings_def profile_defs Let_def)
  then show ?thesis
    by (auto simp: pico_set_quality_mode_def quality_mode_check pico_apply_voice_profile_def
        Let_def split_beta)
qed

theorem pico_unsupported_values_witness:
  "\<not> quality_mode_ok 3 \<and>
   pico_set_quality_mode 3 initial_quality_globals = (PICO_ERR_OTHER, initial_quality_globals) \<and>
   \<not> known_voice_profile 7 \<and>
   fst (pico_apply_voice_profile 7 initial_quality_globals) = PICO_OK \<and>
   pico_apply_voice_profile 7 initial_quality_globals
     = pico_apply_voice_profile PICO_VOICE_PROFILE_DEFAULT initial_quality_globals"
proof -
  have a: "\<not> quality_mode_ok 3"
    by (simp add: quality_mode_ok_def PICO_QUALITY_MODE_QUALITY_def PICO_QUALITY_MODE_SPEED_def
        PICO_QUALITY_MODE_BALANCED_def)
  have b: "\<not> known_voice_profile 7"
    by (simp add: known_voice_profile_def profile_defs)
  have c: "fst (pico_apply_voice_profile PICO_VOICE_PROFILE_DEFAULT initial_quality_globals) = PICO_OK"
    by (simp add: pico_apply_voice_profile_def Let_def split_beta)
  show ?thesis
    using a b c pico_unsupported_values [of 3 initial_quality_globals 7] by simp
qed

section \<open>Decision tree cache: probing\<close>

lemma and_255_mod_16: "unat ((x :: 16 word) AND 255) = unat x mod 256"
proof -
  have "(255 :: 16 word) = mask 8" by (simp add: mask_eq_exp_minus_1)
  then have "x AND 255 = take_bit 8 x"
    by (simp only: take_bit_eq_mask)
  then have "unat (x AND 255) = take_bit 8 (unat x)"
    by (simp only: unsigned_take_bit_eq)
  then show ?thesis by (simp add: take_bit_eq_mod)
qed

lemma and_255_mod_32: "unat ((x :: 32 word) AND 255) = unat x mod 256"
proof -
  have "(255 :: 32 word) = mask 8" by (simp add: mask_eq_exp_minus_1)
  then have "x AND 255 = take_bit 8 x"
    by (simp only: take_bit_eq_mask)
  then have "unat (x AND 255) = take_bit 8 (unat x)"
    by (simp only: unsigned_take_bit_eq)
  then show ?thesis by (simp add: take_bit_eq_mod)
qed

lemma mod_window_inj:
  fixes a i j :: nat
  assumes "(a + i) mod 256 = (a + j) mod 256" "i < 4" "j < 4"
  shows "i = j"
proof (rule ccontr)
  assume ne: "i \<noteq> j"
  define d where "d = (if i < j then j - i else i - j)"
  have d: "0 < d" "d < 4" using ne assms(2,3) by (auto simp: d_def)
  have "(a + min i j + d) mod 256 = (a + min i j) mod 256"
    using assms(1) by (auto simp: d_def min_def)
  then have "256 dvd ((a + min i j + d) - (a + min i j))"
    by (metis mod_eq_dvd_iff_nat le_add1)
  then have "256 dvd d" by simp
  with d show False by (auto dest: dvd_imp_le)
qed

lemma get_cache_index_unat: "unat (get_cache_index h) = unat h mod 256"
proof -
  have "unat (ucast (h AND 255) :: 16 word) = take_bit 16 (unat (h AND 255))"
    by (simp only: unsigned_ucast_eq) simp
  also have "\<dots> = unat (h AND 255)"
    by (rule take_bit_nat_eq_self) (simp add: and_255_mod_32 order_less_trans [of _ 256])
  finally show ?thesis
    by (simp add: get_cache_index_def PICO_DT_CACHE_SIZE_def and_255_mod_32)
qed

lemma probe_index_unat: "unat (probe_index s i) = (unat s + unat i) mod 256"
proof -
  have "unat (probe_index s i) = unat (s + i) mod 256"
    by (simp add: probe_index_def PICO_DT_CACHE_SIZE_def and_255_mod_16)
  also have "\<dots> = (unat s + unat i) mod 256"
    by (simp add: unat_word_ariths mod_mod_cancel)
  finally show ?thesis .
qed

lemma get_cache_index_bound: "unat (get_cache_index h) < PICO_DT_CACHE_SIZE"
  by (simp add: get_cache_index_unat PICO_DT_CACHE_SIZE_def)

lemma probe_index_bound: "unat (probe_index s i) < PICO_DT_CACHE_SIZE"
  by (simp add: probe_index_unat PICO_DT_CACHE_SIZE_def)

lemma probe_index_zero: "probe_index (get_cache_index h) 0 = get_cache_index h"
proof -
  have "unat (probe_index (get_cache_index h) 0) = unat (get_cache_index h)"
    by (simp add: probe_index_unat get_cache_index_unat)
  then show ?thesis by (simp only: word_unat_eq_iff)
qed

lemma probe_index_inj:
  assumes "i \<in> {0, 1, 2, 3}" "j \<in> {0, 1, 2, 3}" "probe_index s i = probe_index s j"
  shows "i = j"
proof -
  from assms(3) have "(unat s + unat i) mod 256 = (unat s + unat j) mod 256"
    by (simp only: probe_index_unat [symmetric])
  moreover from assms(1,2) have "unat i < 4" "unat j < 4" by auto
  ultimately have "unat i = unat j" by (rule mod_window_inj)
  then show ?thesis by (simp only: word_unat_eq_iff)
qed

lemma find_lru_entry_window:
  "find_lru_entry c s \<in> {s, probe_index s 0, probe_index s 1, probe_index s 2, probe_index s 3}"
  unfolding find_lru_entry_def
  by (simp add: find_lru_loop.simps [of c s 0] find_lru_loop.simps [of c s 1]
      find_lru_loop.simps [of c s 2] find_lru_loop.simps [of c s 3] find_lru_loop.simps [of c s 4]
      Let_def)

lemma lookup_probe_unroll:
  "lookup_probe c index h t 1 =
     (if entry_matches (entries c ! unat (probe_index index 1)) h t
      then Some (pdf_index (entries c ! unat (probe_index index 1)),
                 (touch_entry c (probe_index index 1))\<lparr>stats := (stats c)\<lparr>hits := hits (stats c) + 1,
                    collisions := collisions (stats c) + 1\<rparr>\<rparr>)
      else if entry_matches (entries c ! unat (probe_index index 2)) h t
      then Some (pdf_index (entries c ! unat (probe_index index 2)),
                 (touch_entry c (probe_index index 2))\<lparr>stats := (stats c)\<lparr>hits := hits (stats c) + 1,
                    collisions := collisions (stats c) + 1\<rparr>\<rparr>)
      else if entry_matches (entries c ! unat (probe_index index 3)) h t
      then Some (pdf_index (entries c ! unat (probe_index index 3)),
                 (touch_entry c (probe_index index 3))\<lparr>stats := (stats c)\<lparr>hits := hits (stats c) + 1,
                    collisions := collisions (stats c) + 1\<rparr>\<rparr>)
      else None)"
  by (simp add: lookup_probe.simps [of c index h t 1] lookup_probe.simps [of c index h t 2]
      lookup_probe.simps [of c index h t 3] lookup_probe.simps [of c index h t 4] Let_def)


lemma lookup_enabled:
  assumes "enabled c \<noteq> 0"
  shows "picodt_cache_lookup (Some c) h t (Some out) =
    (if entry_matches (entries c ! unat (probe_index (get_cache_index h) 0)) h t
     then (1, Some (pdf_index (entries c ! unat (probe_index (get_cache_index h) 0))),
           Some ((touch_entry c (get_cache_index h))\<lparr>stats := (stats c)\<lparr>hits := hits (stats c) + 1\<rparr>\<rparr>))
     else if entry_matches (entries c ! unat (probe_index (get_cache_index h) 1)) h t
     then (1, Some (pdf_index (entries c ! unat (probe_index (get_cache_index h) 1))),
           Some ((touch_entry c (probe_index (get_cache_index h) 1))
                   \<lparr>stats := (stats c)\<lparr>hits := hits (stats c) + 1,
                                       collisions := collisions (stats c) + 1\<rparr>\<rparr>))
     else if entry_matches (entries c ! unat (probe_index (get_cache_index h) 2)) h t
     then (1, Some (pdf_index (entries c ! unat (probe_index (get_cache_index h) 2))),
           Some ((touch_entry c (probe_index (get_cache_index h) 2))
                   \<lparr>stats := (stats c)\<lparr>hits := hits (stats c) + 1,
                                       collisions := collisions (stats c) + 1\<rparr>\<rparr>))
     else if entry_matches (entries c ! unat (probe_index (get_cache_index h) 3)) h t
     then (1, Some (pdf_index (entries c ! unat (probe_index (get_cache_index h) 3))),
           Some ((touch_entry c (probe_index (get_cache_index h) 3))
                   \<lparr>stats := (stats c)\<lparr>hits := hits (stats c) + 1,
                                       collisions := collisions (stats c) + 1\<rparr>\<rparr>))
     else (0, Some out, Some (c\<lparr>stats := (stats c)\<lparr>misses := misses (stats c) + 1\<rparr>\<rparr>)))"
  using assms
  by (simp add: picodt_cache_lookup_def picodt_cache_is_enabled_def Let_def lookup_probe_unroll
      probe_index_zero)

lemma lookup_miss_iff:
  assumes "enabled c \<noteq> 0"
  shows "(fst (picodt_cache_lookup (Some c) h t (Some out)) = 0) = (window_matches c h t = [])"
  by (simp add: lookup_enabled [OF assms] window_matches_def)

lemma lookup_hit_value:
  assumes "enabled c \<noteq> 0" "window_matches c h t \<noteq> []"
  shows "fst (picodt_cache_lookup (Some c) h t (Some out)) = 1 \<and>
         (\<exists>i \<in> {0, 1, 2, 3}.
            entry_matches (entries c ! unat (probe_index (get_cache_index h) i)) h t \<and>
            fst (snd (picodt_cache_lookup (Some c) h t (Some out)))
              = Some (pdf_index (entries c ! unat (probe_index (get_cache_index h) i))))"
  using assms(2)
  by (simp add: lookup_enabled [OF assms(1)] window_matches_def split: if_splits)

lemma window_matches_member:
  "i \<in> set (window_matches c h t) \<longleftrightarrow>
     i \<in> {0, 1, 2, 3} \<and> entry_matches (entries c ! unat (probe_index (get_cache_index h) i)) h t"
  by (auto simp: window_matches_def)

lemma insert_enabled:
  assumes "enabled c \<noteq> 0"
  shows "\<exists>i0 \<in> {0, 1, 2, 3}. \<exists>c1. entries c1 = entries c \<and> enabled c1 = enabled c \<and>
           picodt_cache_insert (Some c) h t p
             = Some (store_entry c1 (probe_index (get_cache_index h) i0) h t p)"
proof (cases "valid (entries c ! unat (get_cache_index h)) = 0")
  case True
  then have "picodt_cache_insert (Some c) h t p
               = Some (store_entry c (probe_index (get_cache_index h) 0) h t p)"
    using assms
    by (simp add: picodt_cache_insert_def picodt_cache_is_enabled_def Let_def probe_index_zero)
  then show ?thesis by blast
next
  case False
  let ?k = "find_lru_entry c (get_cache_index h)"
  let ?c1 = "(if valid (entries c ! unat ?k) \<noteq> 0
              then c\<lparr>stats := (stats c)\<lparr>evictions := evictions (stats c) + 1\<rparr>\<rparr> else c)"
  have ins: "picodt_cache_insert (Some c) h t p = Some (store_entry ?c1 ?k h t p)"
    using assms False
    by (simp add: picodt_cache_insert_def picodt_cache_is_enabled_def Let_def)
  have c1: "entries ?c1 = entries c" "enabled ?c1 = enabled c" by simp_all
  have "?k \<in> {probe_index (get_cache_index h) 0, probe_index (get_cache_index h) 1,
               probe_index (get_cache_index h) 2, probe_index (get_cache_index h) 3}"
    using find_lru_entry_window [of c "get_cache_index h"] by (simp add: probe_index_zero)
  then obtain i0 where "i0 \<in> {0, 1, 2, 3}" "?k = probe_index (get_cache_index h) i0"
    by auto
  with ins c1 show ?thesis by metis
qed

lemma store_entry_entries:
  "entries (store_entry c k h t p) =
     (entries c)[unat k := (entries c ! unat k)\<lparr>context_hash := h, pdf_index := p, tree_id := t,
                                                  valid := 1, access_count := clock c\<rparr>]"
  by (simp add: store_entry_def)

lemma store_entry_at:
  assumes "unat k < length (entries c)"
  shows "entry_matches (entries (store_entry c k h t p) ! unat k) h' t' = (h' = h \<and> t' = t)"
    and "pdf_index (entries (store_entry c k h t p) ! unat k) = p"
  using assms by (auto simp: store_entry_entries entry_matches_def)

lemma store_entry_other:
  "j \<noteq> unat k \<Longrightarrow> entries (store_entry c k h t p) ! j = entries c ! j"
  by (simp add: store_entry_entries)

lemma store_entry_misc:
  "enabled (store_entry c k h t p) = enabled c"
  "length (entries (store_entry c k h t p)) = length (entries c)"
  by (simp_all add: store_entry_def)

lemma invalidate_entries_length: "length (invalidate_entries es i) = length es"
  by (induction es i rule: invalidate_entries.induct)
     (simp add: invalidate_entries.simps [of _ i for i])

lemma invalidate_entries_nth:
  "j < length es \<Longrightarrow>
   invalidate_entries es i ! j =
     (if i \<le> j \<and> j < PICO_DT_CACHE_SIZE then (es ! j)\<lparr>valid := 0, access_count := 0\<rparr> else es ! j)"
proof (induction es i rule: invalidate_entries.induct)
  case (1 es i)
  show ?case
  proof (cases "i < PICO_DT_CACHE_SIZE")
    case True
    let ?es = "es[i := (es ! i)\<lparr>valid := 0, access_count := 0\<rparr>]"
    have step: "invalidate_entries es i = invalidate_entries ?es (i + 1)"
      using True by (subst invalidate_entries.simps) simp
    have ih: "invalidate_entries ?es (i + 1) ! j =
                (if i + 1 \<le> j \<and> j < PICO_DT_CACHE_SIZE
                 then (?es ! j)\<lparr>valid := 0, access_count := 0\<rparr> else ?es ! j)"
      using "1.IH" [OF True] "1.prems" by simp
    consider (lt) "j < i" | (eq) "j = i" | (gt) "i < j" by arith
    then show ?thesis
    proof cases
      case lt
      then show ?thesis using ih by (simp add: step)
    next
      case eq
      then show ?thesis using ih True "1.prems" by (simp add: step)
    next
      case gt
      then show ?thesis using ih by (simp add: step)
    qed
  next
    case False
    then have "\<not> (i \<le> j \<and> j < PICO_DT_CACHE_SIZE)" by arith
    moreover have "invalidate_entries es i = es"
      using False by (subst invalidate_entries.simps) simp
    ultimately show ?thesis by auto
  qed
qed

lemma invalidate_entries_all:
  assumes "length es = PICO_DT_CACHE_SIZE" "j < PICO_DT_CACHE_SIZE"
  shows "valid (invalidate_entries es 0 ! j) = 0"
  using assms by (simp add: invalidate_entries_nth)

lemma invalidate_blank:
  "invalidate_entries (replicate PICO_DT_CACHE_SIZE zero_entry) 0 = replicate PICO_DT_CACHE_SIZE zero_entry"
  by (rule nth_equalityI)
     (simp_all add: invalidate_entries_length invalidate_entries_nth zero_entry_def)

lemma fresh_cache_eq:
  "fresh_cache = Some \<lparr>entries = replicate PICO_DT_CACHE_SIZE zero_entry, stats = zero_stats,
                        enabled = 1, clock = 0\<rparr>"
  by (simp add: fresh_cache_def picodt_cache_initialize_def blank_memory_def invalidate_blank)

lemma get_cache_index_5: "get_cache_index 5 = 5"
  by (simp add: get_cache_index_def PICO_DT_CACHE_SIZE_def)

lemma probe_5: "probe_index 5 0 = 5" "probe_index 5 1 = 6" "probe_index 5 2 = 7" "probe_index 5 3 = 8"
  by (simp_all add: probe_index_def PICO_DT_CACHE_SIZE_def)

lemma first_insert:
  "picodt_cache_insert fresh_cache 5 1 10 =
     Some \<lparr>entries = (replicate PICO_DT_CACHE_SIZE zero_entry)
              [5 := \<lparr>context_hash = 5, pdf_index = 10, tree_id = 1, valid = 1, access_count = 0\<rparr>],
           stats = zero_stats, enabled = 1, clock = 1\<rparr>"
  by (simp add: fresh_cache_eq picodt_cache_insert_def picodt_cache_is_enabled_def Let_def
      get_cache_index_5 store_entry_def zero_entry_def PICO_DT_CACHE_SIZE_def)

lemma second_insert:
  "picodt_cache_insert (picodt_cache_insert fresh_cache 5 1 10) 5 1 20 =
     Some \<lparr>entries = (replicate PICO_DT_CACHE_SIZE zero_entry)
              [5 := \<lparr>context_hash = 5, pdf_index = 10, tree_id = 1, valid = 1, access_count = 0\<rparr>,
               6 := \<lparr>context_hash = 5, pdf_index = 20, tree_id = 1, valid = 1, access_count = 1\<rparr>],
           stats = zero_stats, enabled = 1, clock = 2\<rparr>"
  unfolding first_insert
  by (simp add: picodt_cache_insert_def picodt_cache_is_enabled_def Let_def
      get_cache_index_5 store_entry_def zero_entry_def PICO_DT_CACHE_SIZE_def
      find_lru_entry_def find_lru_loop.simps [of _ _ 0] find_lru_loop.simps [of _ _ 1] probe_5)

text \<open>
  C1, as stated, fails when the key is already in the window. The insert does not look
  for the key: the second insert of \<open>(5, 1)\<close> goes to the next free slot, and the lookup
  stops at the older entry in the primary slot and returns its value 10, not the 20
  just inserted. No slot was evicted.
\<close>

theorem picodt_cache_stale_duplicate_counterexample:
  "picodt_cache_is_enabled (picodt_cache_insert fresh_cache 5 1 10) \<and>
   map_option (\<lambda>c. evictions (stats c))
     (picodt_cache_insert (picodt_cache_insert fresh_cache 5 1 10) 5 1 20) = Some 0 \<and>
   fst (picodt_cache_lookup (picodt_cache_insert (picodt_cache_insert fresh_cache 5 1 10) 5 1 20)
          5 1 (Some 0)) = 1 \<and>
   fst (snd (picodt_cache_lookup (picodt_cache_insert (picodt_cache_insert fresh_cache 5 1 10) 5 1 20)
          5 1 (Some 0))) = Some 10"
proof -
  have "picodt_cache_is_enabled (picodt_cache_insert fresh_cache 5 1 10)"
    by (simp add: first_insert picodt_cache_is_enabled_def)
  moreover have "map_option (\<lambda>c. evictions (stats c))
     (picodt_cache_insert (picodt_cache_insert fresh_cache 5 1 10) 5 1 20) = Some 0"
    unfolding second_insert by (simp add: zero_stats_def)
  moreover have
    "fst (picodt_cache_lookup (picodt_cache_insert (picodt_cache_insert fresh_cache 5 1 10) 5 1 20)
          5 1 (Some 0)) = 1 \<and>
     fst (snd (picodt_cache_lookup (picodt_cache_insert (picodt_cache_insert fresh_cache 5 1 10) 5 1 20)
          5 1 (Some 0))) = Some 10"
    unfolding second_insert
    by (simp add: picodt_cache_lookup_def picodt_cache_is_enabled_def
        Let_def get_cache_index_5 entry_matches_def PICO_DT_CACHE_SIZE_def)
  ultimately show ?thesis by simp
qed

text \<open>
  C5, as stated, fails: two inserts of one key leave two live entries for it in its
  probe window.
\<close>

theorem picodt_cache_duplicate_counterexample:
  "\<not> at_most_one_live (run_cache_ops fresh_cache [Insert 5 1 10, Insert 5 1 20]) 5 1"
  unfolding run_cache_ops.simps apply_cache_op.simps second_insert
  by (simp add: at_most_one_live_def window_matches_def get_cache_index_5 probe_5
      entry_matches_def PICO_DT_CACHE_SIZE_def)

text \<open>
  C1, amended. For every enabled cache in which no valid entry for \<open>(hash, tid)\<close> lies
  in the probe window of \<open>hash\<close> (as after a lookup of the key that missed), an insert
  followed at once by a lookup of the key returns 1 and stores the inserted value.
\<close>

theorem picodt_cache_insert_then_lookup:
  assumes en: "picodt_cache_is_enabled (Some c)" and ok: "cache_array_ok c"
    and absent: "window_matches c hash tid = []"
  shows "fst (picodt_cache_lookup (picodt_cache_insert (Some c) hash tid pdf) hash tid (Some out)) = 1 \<and>
         fst (snd (picodt_cache_lookup (picodt_cache_insert (Some c) hash tid pdf) hash tid (Some out)))
           = Some pdf"
proof -
  from en have e: "enabled c \<noteq> 0" by (simp add: picodt_cache_is_enabled_def)
  from insert_enabled [OF e, of hash tid pdf]
  obtain i0 c1 where i0: "i0 \<in> {0, 1, 2, 3}"
    and c1: "entries c1 = entries c" "enabled c1 = enabled c"
    and ins: "picodt_cache_insert (Some c) hash tid pdf
                = Some (store_entry c1 (probe_index (get_cache_index hash) i0) hash tid pdf)"
    by blast
  let ?k = "probe_index (get_cache_index hash) i0"
  let ?c' = "store_entry c1 ?k hash tid pdf"
  have k: "unat ?k < length (entries c1)"
    using probe_index_bound [of "get_cache_index hash" i0] ok c1 by (simp add: cache_array_ok_def)
  have e': "enabled ?c' \<noteq> 0" using e c1 by (simp add: store_entry_misc)
  have "i0 \<in> set (window_matches ?c' hash tid)"
    using i0 store_entry_at(1) [OF k, of hash tid pdf hash tid]
    by (simp add: window_matches_member)
  then have ne: "window_matches ?c' hash tid \<noteq> []" by auto
  from lookup_hit_value [OF e' ne, of out]
  obtain i where ret: "fst (picodt_cache_lookup (Some ?c') hash tid (Some out)) = 1"
    and i: "i \<in> {0, 1, 2, 3}"
    and m: "entry_matches (entries ?c' ! unat (probe_index (get_cache_index hash) i)) hash tid"
    and v: "fst (snd (picodt_cache_lookup (Some ?c') hash tid (Some out)))
              = Some (pdf_index (entries ?c' ! unat (probe_index (get_cache_index hash) i)))"
    by blast
  have "unat (probe_index (get_cache_index hash) i) = unat ?k"
  proof (rule ccontr)
    assume d: "unat (probe_index (get_cache_index hash) i) \<noteq> unat ?k"
    then have "entries ?c' ! unat (probe_index (get_cache_index hash) i)
                 = entries c ! unat (probe_index (get_cache_index hash) i)"
      using store_entry_other [OF d, of c1 hash tid pdf] c1 by simp
    with m i have "i \<in> set (window_matches c hash tid)"
      by (simp add: window_matches_member)
    with absent show False by simp
  qed
  with v have "fst (snd (picodt_cache_lookup (Some ?c') hash tid (Some out))) = Some pdf"
    using store_entry_at(2) [OF k, of hash tid pdf] by simp
  with ret show ?thesis by (simp add: ins)
qed

theorem picodt_cache_insert_then_lookup_witness:
  "picodt_cache_is_enabled (picodt_cache_insert fresh_cache 5 1 10) \<and>
   fst (picodt_cache_lookup (picodt_cache_insert (picodt_cache_insert fresh_cache 5 1 10) 261 1 30)
          261 1 (Some 0)) = 1 \<and>
   fst (snd (picodt_cache_lookup (picodt_cache_insert (picodt_cache_insert fresh_cache 5 1 10) 261 1 30)
          261 1 (Some 0))) = Some 30"
proof -
  let ?c = "\<lparr>entries = (replicate PICO_DT_CACHE_SIZE zero_entry)
              [5 := \<lparr>context_hash = 5, pdf_index = 10, tree_id = 1, valid = 1, access_count = 0\<rparr>],
           stats = zero_stats, enabled = 1, clock = 1\<rparr>"
  have en: "picodt_cache_is_enabled (Some ?c)" by (simp add: picodt_cache_is_enabled_def)
  have ok: "cache_array_ok ?c" by (simp add: cache_array_ok_def)
  have g: "get_cache_index 261 = 5" by (simp add: get_cache_index_def PICO_DT_CACHE_SIZE_def)
  have absent: "window_matches ?c 261 1 = []"
    by (simp add: window_matches_def g probe_5 entry_matches_def zero_entry_def PICO_DT_CACHE_SIZE_def)
  show ?thesis
    using en picodt_cache_insert_then_lookup [OF en ok absent, of 30 0]
    by (simp add: first_insert)
qed

section \<open>Decision tree cache: live entries\<close>

lemma length_filter_mono:
  "(\<And>x. x \<in> set xs \<Longrightarrow> P x \<Longrightarrow> Q x) \<Longrightarrow> length (filter P xs) \<le> length (filter Q xs)"
  by (induction xs) auto

lemma filter_inj_le1:
  "distinct xs \<Longrightarrow> inj_on f (set xs) \<Longrightarrow> length (filter (\<lambda>i. f i = y) xs) \<le> 1"
proof (induction xs)
  case Nil
  then show ?case by simp
next
  case (Cons x xs)
  from Cons.prems have d: "distinct xs" and inj: "inj_on f (set xs)" and nx: "x \<notin> set xs"
    by (auto simp: inj_on_def)
  show ?case
  proof (cases "f x = y")
    case True
    have "\<forall>i \<in> set xs. f i \<noteq> y"
    proof
      fix i assume i: "i \<in> set xs"
      show "f i \<noteq> y"
      proof
        assume "f i = y"
        with True have "f i = f x" by simp
        with Cons.prems(2) i have "i = x" by (auto simp: inj_on_def)
        with i nx show False by simp
      qed
    qed
    then have "filter (\<lambda>i. f i = y) xs = []" by (simp add: filter_empty_conv)
    with True show ?thesis by simp
  next
    case False
    with Cons.IH [OF d inj] show ?thesis by simp
  qed
qed

lemma window_slot_unique:
  "length (filter (\<lambda>i. unat (probe_index s i) = k) [0, 1, 2, 3]) \<le> 1"
proof (rule filter_inj_le1)
  show "distinct [0, 1, 2, 3 :: picoos_uint16]" by simp
  show "inj_on (\<lambda>i. unat (probe_index s i)) (set [0, 1, 2, 3])"
  proof (rule inj_onI)
    fix x y :: picoos_uint16
    assume x: "x \<in> set [0, 1, 2, 3]" and y: "y \<in> set [0, 1, 2, 3]"
      and e: "unat (probe_index s x) = unat (probe_index s y)"
    from e have "probe_index s x = probe_index s y" by (simp only: word_unat_eq_iff)
    with x y show "x = y" using probe_index_inj [of x y s] by simp
  qed
qed

lemma touch_entry_matches:
  "entry_matches (entries (touch_entry c k) ! j) h t = entry_matches (entries c ! j) h t"
proof (cases "unat k < length (entries c)")
  case True
  then show ?thesis
    by (cases "j = unat k") (simp_all add: touch_entry_def entry_matches_def)
next
  case False
  then show ?thesis by (simp add: touch_entry_def list_update_beyond)
qed

lemma window_matches_touch:
  "window_matches (touch_entry c k) h t = window_matches c h t"
  by (simp add: window_matches_def touch_entry_matches)

lemma window_matches_stats:
  "window_matches (c\<lparr>stats := s\<rparr>) h t = window_matches c h t"
  by (simp add: window_matches_def)

lemma cache_array_ok_touch:
  "cache_array_ok (touch_entry c k) = cache_array_ok c"
  by (simp add: cache_array_ok_def touch_entry_def)

lemma cache_array_ok_stats:
  "cache_array_ok (c\<lparr>stats := s\<rparr>) = cache_array_ok c"
  by (simp add: cache_array_ok_def)

lemma lookup_disabled:
  "\<not> picodt_cache_is_enabled cache \<Longrightarrow> picodt_cache_lookup cache h t out = (0, out, cache)"
  by (simp add: picodt_cache_lookup_def)

lemma lookup_preserves_inv:
  assumes "cache_inv cache"
  shows "cache_inv (snd (snd (picodt_cache_lookup cache h t (Some out))))"
proof (cases "picodt_cache_is_enabled cache")
  case False
  with assms show ?thesis by (simp add: lookup_disabled)
next
  case True
  then obtain c where c: "cache = Some c" "enabled c \<noteq> 0"
    by (auto simp: picodt_cache_is_enabled_def split: option.splits)
  with assms show ?thesis
    by (simp add: lookup_enabled cache_inv_def window_matches_touch window_matches_stats
        cache_array_ok_touch cache_array_ok_stats)
qed

lemma window_matches_invalid:
  assumes "cache_array_ok c" "\<forall>j < PICO_DT_CACHE_SIZE. valid (entries c ! j) = 0"
  shows "window_matches c h t = []"
  using assms(2) probe_index_bound
  by (simp add: window_matches_def entry_matches_def)

lemma clear_preserves_inv:
  assumes "cache_inv cache"
  shows "cache_inv (picodt_cache_clear cache)"
proof (cases cache)
  case None
  then show ?thesis by (simp add: picodt_cache_clear_def cache_inv_def)
next
  case (Some c)
  let ?c' = "c\<lparr>entries := invalidate_entries (entries c) 0, stats := zero_stats, clock := 0\<rparr>"
  from Some assms have ok: "cache_array_ok c" by (simp add: cache_inv_def)
  then have ok': "cache_array_ok ?c'"
    by (simp add: cache_array_ok_def invalidate_entries_length)
  have "\<forall>j < PICO_DT_CACHE_SIZE. valid (entries ?c' ! j) = 0"
    using ok by (simp add: cache_array_ok_def invalidate_entries_all)
  then have "\<And>h t. window_matches ?c' h t = []"
    using ok' by (rule window_matches_invalid [rotated])
  with ok' Some show ?thesis
    by (simp add: picodt_cache_clear_def cache_inv_def)
qed

lemma initialize_inv:
  assumes "cache_array_ok raw"
  shows "cache_inv (snd (picodt_cache_initialize False (Some raw)))"
proof -
  let ?c' = "raw\<lparr>entries := invalidate_entries (entries raw) 0, stats := zero_stats,
                  enabled := 1, clock := 0\<rparr>"
  from assms have ok': "cache_array_ok ?c'"
    by (simp add: cache_array_ok_def invalidate_entries_length)
  have "\<forall>j < PICO_DT_CACHE_SIZE. valid (entries ?c' ! j) = 0"
    using assms by (simp add: cache_array_ok_def invalidate_entries_all)
  then have "\<And>h t. window_matches ?c' h t = []"
    using ok' by (rule window_matches_invalid [rotated])
  with ok' show ?thesis
    by (simp add: picodt_cache_initialize_def cache_inv_def)
qed

lemma insert_preserves_inv:
  assumes inv: "cache_inv cache"
    and miss: "fst (picodt_cache_lookup cache h t (Some out)) = 0"
  shows "cache_inv (picodt_cache_insert cache h t p)"
proof (cases "picodt_cache_is_enabled cache")
  case False
  with inv show ?thesis by (simp add: picodt_cache_insert_def)
next
  case True
  then obtain c where c: "cache = Some c" and e: "enabled c \<noteq> 0"
    by (auto simp: picodt_cache_is_enabled_def split: option.splits)
  from inv c have ok: "cache_array_ok c" and one: "\<And>h' t'. length (window_matches c h' t') \<le> 1"
    by (simp_all add: cache_inv_def)
  from miss c have absent: "window_matches c h t = []"
    by (simp add: lookup_miss_iff [OF e])
  from insert_enabled [OF e, of h t p]
  obtain i0 c1 where i0: "i0 \<in> {0, 1, 2, 3}"
    and c1: "entries c1 = entries c" "enabled c1 = enabled c"
    and ins: "picodt_cache_insert (Some c) h t p
                = Some (store_entry c1 (probe_index (get_cache_index h) i0) h t p)"
    by blast
  let ?k = "probe_index (get_cache_index h) i0"
  let ?c' = "store_entry c1 ?k h t p"
  have k: "unat ?k < length (entries c1)"
    using probe_index_bound [of "get_cache_index h" i0] ok c1 by (simp add: cache_array_ok_def)
  have ok': "cache_array_ok ?c'"
    using ok c1 by (simp add: cache_array_ok_def store_entry_misc)
  have "length (window_matches ?c' h' t') \<le> 1" for h' t'
  proof (cases "h' = h \<and> t' = t")
    case True
    have "length (window_matches ?c' h t)
            \<le> length (filter (\<lambda>i. unat (probe_index (get_cache_index h) i) = unat ?k) [0, 1, 2, 3])"
      unfolding window_matches_def
    proof (rule length_filter_mono)
      fix i :: picoos_uint16
      assume i: "i \<in> set [0, 1, 2, 3]"
        and m: "entry_matches (entries ?c' ! unat (probe_index (get_cache_index h) i)) h t"
      show "unat (probe_index (get_cache_index h) i) = unat ?k"
      proof (rule ccontr)
        assume d: "unat (probe_index (get_cache_index h) i) \<noteq> unat ?k"
        then have "entries ?c' ! unat (probe_index (get_cache_index h) i)
                     = entries c ! unat (probe_index (get_cache_index h) i)"
          using store_entry_other [OF d, of c1 h t p] c1 by simp
        with m i have "i \<in> set (window_matches c h t)"
          by (simp add: window_matches_member)
        with absent show False by simp
      qed
    qed
    also have "\<dots> \<le> 1" by (rule window_slot_unique)
    finally show ?thesis using True by simp
  next
    case False
    have "length (window_matches ?c' h' t') \<le> length (window_matches c h' t')"
      unfolding window_matches_def
    proof (rule length_filter_mono)
      fix i :: picoos_uint16
      assume m: "entry_matches (entries ?c' ! unat (probe_index (get_cache_index h') i)) h' t'"
      have d: "unat (probe_index (get_cache_index h') i) \<noteq> unat ?k"
      proof
        assume "unat (probe_index (get_cache_index h') i) = unat ?k"
        with m have "h' = h \<and> t' = t"
          using store_entry_at(1) [OF k, of h t p h' t'] by simp
        with False show False by simp
      qed
      then have "entries ?c' ! unat (probe_index (get_cache_index h') i)
                   = entries c ! unat (probe_index (get_cache_index h') i)"
        using store_entry_other [OF d, of c1 h t p] c1 by simp
      with m show "entry_matches (entries c ! unat (probe_index (get_cache_index h') i)) h' t'"
        by simp
    qed
    also have "\<dots> \<le> 1" by (rule one)
    finally show ?thesis .
  qed
  with ok' show ?thesis by (simp add: c ins cache_inv_def)
qed

lemma run_preserves_inv:
  "cache_inv cache \<Longrightarrow> inserts_follow_misses cache ops \<Longrightarrow> cache_inv (run_cache_ops cache ops)"
proof (induction ops arbitrary: cache)
  case Nil
  then show ?case by simp
next
  case (Cons op ops)
  show ?case
  proof (cases op)
    case (Lookup h t)
    with Cons.prems have "cache_inv (apply_cache_op cache op)"
      and "inserts_follow_misses (apply_cache_op cache op) ops"
      by (simp_all add: lookup_preserves_inv)
    then show ?thesis using Cons.IH by simp
  next
    case (Insert h t p)
    with Cons.prems have "cache_inv (apply_cache_op cache op)"
      and "inserts_follow_misses (apply_cache_op cache op) ops"
      using insert_preserves_inv [of cache h t 0 p] by simp_all
    then show ?thesis using Cons.IH by simp
  next
    case Clear
    with Cons.prems have "cache_inv (apply_cache_op cache op)"
      and "inserts_follow_misses (apply_cache_op cache op) ops"
      by (simp_all add: clear_preserves_inv)
    then show ?thesis using Cons.IH by simp
  qed
qed

text \<open>
  C5, amended. In every state reached from initialization by lookups, clears and
  inserts that are each made when a lookup of their key misses, every key has at most
  one valid entry among the 4 probed slots of its hash.
\<close>

theorem picodt_cache_no_duplicates:
  assumes "cache_array_ok raw"
    and "inserts_follow_misses (snd (picodt_cache_initialize False (Some raw))) ops"
  shows "at_most_one_live (run_cache_ops (snd (picodt_cache_initialize False (Some raw))) ops) hash tid"
proof -
  have "cache_inv (run_cache_ops (snd (picodt_cache_initialize False (Some raw))) ops)"
    using initialize_inv [OF assms(1)] assms(2) by (rule run_preserves_inv)
  then show ?thesis
    by (simp add: cache_inv_def at_most_one_live_def split: option.splits)
qed

theorem picodt_cache_no_duplicates_witness:
  "cache_array_ok blank_memory \<and>
   inserts_follow_misses (snd (picodt_cache_initialize False (Some blank_memory)))
     [Lookup 5 1, Insert 5 1 10, Lookup 5 1, Insert 261 1 30] \<and>
   at_most_one_live (run_cache_ops (snd (picodt_cache_initialize False (Some blank_memory)))
     [Lookup 5 1, Insert 5 1 10, Lookup 5 1, Insert 261 1 30]) 5 1"
proof -
  have ok: "cache_array_ok blank_memory" by (simp add: cache_array_ok_def blank_memory_def)
  have p: "inserts_follow_misses (snd (picodt_cache_initialize False (Some blank_memory)))
     [Lookup 5 1, Insert 5 1 10, Lookup 5 1, Insert 261 1 30]"
    by code_simp
  show ?thesis
    using ok p picodt_cache_no_duplicates [OF ok p, of 5 1] by simp
qed

section \<open>Decision tree cache: hit rate\<close>

lemma percentage_le: "(a * 100) div (a + b) \<le> (100 :: nat)"
proof (cases "a + b = 0")
  case True
  then show ?thesis by simp
next
  case False
  define n where "n = a + b"
  have "a * 100 \<le> 100 * n" by (simp add: n_def)
  then have "(a * 100) div n \<le> (100 * n) div n" by (rule div_le_mono)
  also have "(100 * n) div n = 100"
  proof -
    have "n \<noteq> 0" using False by (simp add: n_def)
    then show ?thesis by simp
  qed
  finally show ?thesis by (simp add: n_def)
qed

lemma hit_rate_exact:
  assumes "unat (hits (stats c)) * 100 < 2 ^ 32"
    and "unat (hits (stats c)) + unat (misses (stats c)) < 2 ^ 32"
  shows "unat (picodt_cache_hit_rate (Some c))
           = hit_rate_spec (unat (hits (stats c))) (unat (misses (stats c)))"
    and "unat (picodt_cache_hit_rate (Some c)) \<le> 100"
proof -
  let ?h = "hits (stats c)" and ?m = "misses (stats c)"
  have tot: "unat (?h + ?m) = unat ?h + unat ?m"
    using assms(2) by (simp add: unat_word_ariths)
  have mul: "unat (?h * 100) = unat ?h * 100"
    using assms(1) by (simp add: unat_word_ariths)
  have zero: "(?h + ?m = 0) = (unat ?h + unat ?m = 0)"
    using tot by (metis unat_eq_0)
  have q: "unat ((?h * 100) div (?h + ?m)) = (unat ?h * 100) div (unat ?h + unat ?m)"
    by (simp add: unat_div tot mul)
  have le: "(unat ?h * 100) div (unat ?h + unat ?m) \<le> 100"
    by (rule percentage_le)
  have cast: "unat (ucast ((?h * 100) div (?h + ?m)) :: 8 word)
                = (unat ?h * 100) div (unat ?h + unat ?m)"
    using le by (simp add: unsigned_ucast_eq q take_bit_nat_eq_self)
  show "unat (picodt_cache_hit_rate (Some c))
           = hit_rate_spec (unat (hits (stats c))) (unat (misses (stats c)))"
    using cast zero by (simp add: picodt_cache_hit_rate_def hit_rate_spec_def Let_def)
  then show "unat (picodt_cache_hit_rate (Some c)) \<le> 100"
    using le by (simp add: hit_rate_spec_def split: if_splits)
qed

lemma hit_rate_after_clear: "picodt_cache_hit_rate (picodt_cache_clear cache) = 0"
  by (cases cache) (simp_all add: picodt_cache_hit_rate_def picodt_cache_clear_def zero_stats_def)

text \<open>
  C6. The claim fails on the code once the 32-bit product \<open>hits * 100\<close> or the sum
  \<open>hits + misses\<close> wraps: with 4294967295 hits and 2 misses the function returns 156,
  outside \<open>[0, 100]\<close>; with 42949673 hits and no miss it returns 0 where the hit rate is
  100. (Below the overflow the claim holds: \<open>hit_rate_exact\<close>, \<open>hit_rate_after_clear\<close>.)
\<close>

theorem picodt_cache_hit_rate_overflow:
  "picodt_cache_hit_rate (Some (blank_memory\<lparr>stats := zero_stats\<lparr>hits := 4294967295, misses := 2\<rparr>\<rparr>))
     = 156 \<and>
   picodt_cache_hit_rate (Some (blank_memory\<lparr>stats := zero_stats\<lparr>hits := 42949673, misses := 0\<rparr>\<rparr>))
     = 0 \<and>
   hit_rate_spec 42949673 0 = 100"
  by (simp add: picodt_cache_hit_rate_def zero_stats_def hit_rate_spec_def)

end
